theory Spec2Isabelle
  imports Main "HOL-Library.Word"
begin

section \<open>pkg/utils/randstr.go\<close>

text \<open>
  Go strings and byte slices are byte sequences: \<^typ>\<open>string\<close>, with \<^const>\<open>length\<close> counting
  bytes as Go's \<open>len\<close> does. Go's \<open>int\<close> is modelled as \<^typ>\<open>int\<close>; every 64-bit value is one, and
  the loop counter never passes \<open>length\<close>, so no addition wraps.

  A call ends with a string or with one of these: the three run-time panics that the
  statements of \<open>RandomString\<close> can raise, and the fatal error of the runtime when the heap
  cannot serve a request, which ends the process.
\<close>

datatype panic =
    MakesliceCapOutOfRange    \<comment> \<open>\<open>make([]byte, 0, n)\<close> with \<open>n < 0\<close> or \<open>n\<close> above the limit\<close>
  | NilPointerDereference     \<comment> \<open>\<open>idx.Int64()\<close> on the nil \<open>*big.Int\<close> of a failed \<open>rand.Int\<close>\<close>
  | IndexOutOfRange           \<comment> \<open>\<open>charset[k]\<close> with \<open>k\<close> outside \<open>0 .. len(charset) - 1\<close>\<close>
  | FatalOutOfMemory          \<comment> \<open>\<open>fatal error: runtime: out of memory\<close>\<close>

text \<open>
  The Go runtime under the program. \<open>maxAlloc\<close> is the platform's limit on the size of one
  allocation (\<open>2 ^ 48\<close> bytes on linux/amd64). \<open>mallocgc rt size\<close> tells whether the heap
  serves a request of \<open>size\<close> bytes; a request of no bytes is not made. The requests put to
  it are those of the statements of this file: the slice of \<open>make\<close>, the string of the
  conversion \<open>string(randbytes)\<close> and the string of \<open>Sprintf\<close>.
\<close>

record runtime =
  maxAlloc :: nat
  mallocgc :: "int \<Rightarrow> bool"

definition serves :: "runtime \<Rightarrow> int \<Rightarrow> bool" where
  "serves rt sz = (sz = 0 \<or> mallocgc rt sz)"

text \<open>
  \<open>make([]byte, 0, length)\<close>, that is \<open>runtime.makeslice\<close> for bytes: the panic
  \<open>makeslice: cap out of range\<close> when the capacity is negative or above \<open>maxAlloc\<close>,
  otherwise the request to the heap.
\<close>

definition make_bytes :: "runtime \<Rightarrow> int \<Rightarrow> panic + string" where
  "make_bytes rt cap =
     (if cap < 0 \<or> int (maxAlloc rt) < cap then Inl MakesliceCapOutOfRange
      else if \<not> serves rt cap then Inl FatalOutOfMemory
      else Inr [])"

text \<open>\<open>string(randbytes)\<close>: the bytes, copied into a new string.\<close>

definition string_of_bytes :: "runtime \<Rightarrow> string \<Rightarrow> panic + string" where
  "string_of_bytes rt bs =
     (if \<not> serves rt (int (length bs)) then Inl FatalOutOfMemory else Inr bs)"

text \<open>\<open>fmt.Sprintf("%s%s", a, b)\<close>: the two strings one after the other, in a new string.\<close>

definition fmt_Sprintf_s_s :: "runtime \<Rightarrow> string \<Rightarrow> string \<Rightarrow> panic + string" where
  "fmt_Sprintf_s_s rt a b =
     (if \<not> serves rt (int (length (a @ b))) then Inl FatalOutOfMemory else Inr (a @ b))"

text \<open>
  \<open>crypto/rand\<close> is the environment. A reader answers the \<open>k\<close>-th read that \<open>rand.Int\<close> makes
  of \<open>rand.Reader\<close>: \<open>None\<close> is a failed read, \<open>Some r\<close> the random number read.
  \<open>rand.Int(rand.Reader, max)\<close> with \<open>max > 0\<close> returns \<open>(nil, err)\<close> when the read failed
  and otherwise a value in \<open>[0, max)\<close>; each such value is \<open>r mod max\<close> for some \<open>r\<close>. The only
  call has \<open>max = 62\<close>, so the panic of \<open>rand.Int\<close> for \<open>max \<le> 0\<close> does not arise.
\<close>

type_synonym rand_Reader = "nat \<Rightarrow> nat option"

definition rand_Int :: "rand_Reader \<Rightarrow> nat \<Rightarrow> int \<Rightarrow> int option" where
  "rand_Int rd k mx = (case rd k of None \<Rightarrow> None | Some r \<Rightarrow> Some (int r mod mx))"

text \<open>\<open>rand_Int_succeeds rd n\<close>: none of the first \<open>n\<close> calls of \<open>rand.Int\<close> returns an error.\<close>

definition rand_Int_succeeds :: "rand_Reader \<Rightarrow> nat \<Rightarrow> bool" where
  "rand_Int_succeeds rd n = list_all (\<lambda>k. rd k \<noteq> None) [0..<n]"

definition charset :: string where
  "charset = ''0123456789abcdefghijklmnopqrstuvwxyzABCDEFGHIJKLMNOPQRSTUVWXYZ''"

text \<open>\<open>charset[k]\<close>: indexing a string panics out of range.\<close>

definition index_string :: "string \<Rightarrow> int \<Rightarrow> panic + char" where
  "index_string s k =
     (if 0 \<le> k \<and> k < int (length s) then Inr (s ! nat k) else Inl IndexOutOfRange)"

text \<open>
  The loop \<open>for i := 0; i < length; i++\<close> of \<open>RandomString\<close>, from counter \<open>i\<close> with
  \<open>randbytes\<close> built so far. Iteration \<open>i\<close> makes the \<open>i\<close>-th call of
  \<open>rand.Int(rand.Reader, big.NewInt(int64(len(charset))))\<close>; its error is dropped
  (\<open>idx, _ :=\<close>) and \<open>idx\<close> is used as it is. The slice has the capacity \<open>length\<close>, so
  \<open>append\<close> never allocates.
\<close>

function RandomString_loop :: "rand_Reader \<Rightarrow> int \<Rightarrow> int \<Rightarrow> string \<Rightarrow> panic + string" where
  "RandomString_loop rd n i randbytes =
     (if i < n then
        (case rand_Int rd (nat i) (int (length charset)) of
           None \<Rightarrow> Inl NilPointerDereference
         | Some idx \<Rightarrow>
             (case index_string charset idx of
                Inl p \<Rightarrow> Inl p
              | Inr c \<Rightarrow> RandomString_loop rd n (i + 1) (randbytes @ [c])))
      else Inr randbytes)"
  by pat_completeness auto
termination
  by (relation "measure (\<lambda>(rd, n, i, randbytes). nat (n - i))") auto

declare RandomString_loop.simps [simp del]

definition RandomString :: "runtime \<Rightarrow> rand_Reader \<Rightarrow> int \<Rightarrow> panic + string" where
  "RandomString rt rd n =
     (case make_bytes rt n of
        Inl p \<Rightarrow> Inl p
      | Inr randbytes \<Rightarrow>
          (case RandomString_loop rd n 0 randbytes of
             Inl p \<Rightarrow> Inl p
           | Inr bs \<Rightarrow> string_of_bytes rt bs))"

text \<open>\<open>RandomStringWithPrefix\<close>: its argument \<open>RandomString(length)\<close> is evaluated first.\<close>

definition RandomStringWithPrefix :: "runtime \<Rightarrow> rand_Reader \<Rightarrow> string \<Rightarrow> int \<Rightarrow> panic + string" where
  "RandomStringWithPrefix rt rd prefix n =
     (case RandomString rt rd n of
        Inl p \<Rightarrow> Inl p
      | Inr s \<Rightarrow> fmt_Sprintf_s_s rt prefix s)"

text \<open>
  Surroundings for the examples: linux/amd64 with a heap that serves up to one gibibyte at
  a time; a reader whose \<open>k\<close>-th number is \<open>7 * k + 3\<close>; a reader whose every read fails.
\<close>

definition example_runtime :: runtime where
  "example_runtime = \<lparr>maxAlloc = 2 ^ 48, mallocgc = (\<lambda>sz. sz \<le> 2 ^ 30)\<rparr>"

definition example_Reader :: rand_Reader where
  "example_Reader k = Some (7 * k + 3)"

definition failing_Reader :: rand_Reader where
  "failing_Reader k = None"

text \<open>The characters the loop appends, one for each iteration from \<open>i\<close> up to \<open>n\<close>.\<close>

definition picks :: "rand_Reader \<Rightarrow> nat \<Rightarrow> nat \<Rightarrow> string" where
  "picks rd i n = map (\<lambda>k. charset ! nat (int (the (rd k)) mod 62)) [i..<n]"


section \<open>pkg/services/unix\_proxy.go\<close>

subsection \<open>Errors, connections and the outside world\<close>

text \<open>
  A Go \<open>error\<close>: \<open>Err m\<close> has the message \<open>m\<close>; \<open>Wrap m e\<close> is what \<open>fmt.Errorf\<close> builds
  with the verb \<open>%w\<close>, the message \<open>m\<close> around the error \<open>e\<close> that \<open>Unwrap\<close> gives back.
\<close>

datatype error = Err string | Wrap string error

fun error_Error :: "error \<Rightarrow> string" where
  "error_Error (Err m) = m"
| "error_Error (Wrap m e) = m"

text \<open>\<open>errors.Is(e, target)\<close>: \<open>e\<close> or an error of its \<open>Unwrap\<close> chain is \<open>target\<close>.\<close>

fun errors_Is :: "error \<Rightarrow> error \<Rightarrow> bool" where
  "errors_Is (Err m) target = (Err m = target)"
| "errors_Is (Wrap m e) target = (Wrap m e = target \<or> errors_Is e target)"

text \<open>\<open>fmt.Errorf(prefix + "%s", err)\<close>: a new error, the text of \<open>err\<close> after the prefix.\<close>

definition fmt_Errorf_s :: "string \<Rightarrow> error \<Rightarrow> error" where
  "fmt_Errorf_s prefix err = Err (prefix @ error_Error err)"

text \<open>\<open>fmt.Errorf(prefix + "%s: %w", file, err)\<close>: the same text, wrapping \<open>err\<close>.\<close>

definition fmt_Errorf_s_w :: "string \<Rightarrow> string \<Rightarrow> error \<Rightarrow> error" where
  "fmt_Errorf_s_w prefix file err = Wrap (prefix @ file @ '': '' @ error_Error err) err"

text \<open>A connection (\<open>net.Conn\<close>) is known by its identity.\<close>

type_synonym conn = nat

text \<open>\<open>*tls.Config\<close> is a pointer that may be nil: \<open>tls_Config option\<close>.\<close>

datatype tls_Config = TLSConfig string

text \<open>\<open>os.FileMode\<close> is a \<open>uint32\<close>; the conversion \<open>os.FileMode(perms)\<close> of an \<open>int\<close> truncates.\<close>

type_synonym FileMode = "32 word"

definition os_FileMode :: "int \<Rightarrow> FileMode" where
  "os_FileMode perms = word_of_int perms"

text \<open>
  What the code does to the outside world, in the order it does it: the calls of the
  listeners, of the dialers, of \<open>lock.Unlock\<close>, of the logger, and \<open>Close\<close> on a connection.
  A logger call keeps its format string and its error argument.
\<close>

datatype effect =
    UnixSocketListen_call string FileMode
  | ListenAndAdvertise_call string "tls_Config option" "(string \<times> string) list"
  | Netceptor_Dial_call string string "tls_Config option"
  | net_Dial_call string string
  | lock_Unlock string
  | logger_Error string error
  | logger_Debug string
  | conn_Close conn

text \<open>
  The answers of the outside world to the set-up calls. \<open>utils.UnixSocketListen\<close>,
  \<open>Netceptor.ListenAndAdvertise\<close> and the TLS look-ups are not in this file: each is a
  parameter giving the call's error (\<open>None\<close> is \<open>nil\<close>) or its value.
\<close>

type_synonym tls_ClientConf = string
type_synonym tls_ServerConf = string

record env =
  UnixSocketListen :: "string \<Rightarrow> FileMode \<Rightarrow> error option"
  ListenAndAdvertise :: "string \<Rightarrow> tls_Config option \<Rightarrow> (string \<times> string) list \<Rightarrow> error option"
  GetClientTLSConfig :: "string \<Rightarrow> string \<Rightarrow> string \<Rightarrow> error + tls_Config option"
  GetServerTLSConfig :: "string \<Rightarrow> error + tls_Config option"
  ClientConf_TLSConfig :: "tls_ClientConf \<Rightarrow> error + tls_Config option"
  ServerConf_TLSConfig :: "tls_ServerConf \<Rightarrow> error + tls_Config option"

subsection \<open>Goroutines\<close>

text \<open>
  A goroutine is at one of the blocking calls of the file, with the variables it holds
  there, or it has returned:
  \<^item> \<open>Inbound_Accept filename node rservice tlscfg\<close>: the loop of \<open>UnixProxyServiceInbound\<close>
    in \<open>uli.Accept()\<close> (line 29); \<open>lock\<close> is the lock of \<open>filename\<close>;
  \<^item> \<open>Inbound_Dial uc\<close>: the goroutine of line 35 in \<open>s.Dial\<close> (line 36);
  \<^item> \<open>Outbound_Accept filename\<close>: the loop of \<open>UnixProxyServiceOutbound\<close> in
    \<open>qli.Accept()\<close> (line 61);
  \<^item> \<open>Outbound_Dial filename qc\<close>: that same loop in \<open>net.Dial\<close> (line 67);
  \<^item> \<open>BridgeConns c1 n1 c2 n2\<close>: inside \<open>utils.BridgeConns(c1, n1, c2, n2)\<close>;
  \<^item> \<open>Returned\<close>: the goroutine's function has returned.
\<close>

datatype goroutine =
    Inbound_Accept string string string "tls_Config option"
  | Inbound_Dial conn
  | Outbound_Accept string
  | Outbound_Dial string conn
  | BridgeConns conn string conn string
  | Returned

text \<open>The process: its goroutines (a \<open>go\<close> statement appends one) and its effects so far.\<close>

record world =
  goroutines :: "goroutine list"
  effects :: "effect list"

definition world0 :: world where
  "world0 = \<lparr>goroutines = [], effects = []\<rparr>"

definition go :: "goroutine \<Rightarrow> world \<Rightarrow> world" where
  "go g w = w\<lparr>goroutines := goroutines w @ [g]\<rparr>"

definition does :: "effect list \<Rightarrow> world \<Rightarrow> world" where
  "does es w = w\<lparr>effects := effects w @ es\<rparr>"

definition becomes :: "nat \<Rightarrow> goroutine \<Rightarrow> world \<Rightarrow> world" where
  "becomes g s w = w\<lparr>goroutines := (goroutines w)[g := s]\<rparr>"

text \<open>
  A blocking call returns when the outside world answers it: \<open>Accept_returns g r\<close> and
  \<open>Dial_returns g r\<close> give goroutine \<open>g\<close> the result \<open>r\<close> of the call it is in (\<open>Inl err\<close> or
  \<open>Inr c\<close>), and \<open>BridgeConns_returns g\<close> ends its relay.
\<close>

datatype event =
    Accept_returns nat "error + conn"
  | Dial_returns nat "error + conn"
  | BridgeConns_returns nat

fun goroutine_of :: "event \<Rightarrow> nat" where
  "goroutine_of (Accept_returns g r) = g"
| "goroutine_of (Dial_returns g r) = g"
| "goroutine_of (BridgeConns_returns g) = g"

text \<open>
  The body of the accept loops and of the goroutines they start, from one blocking call
  to the next. The result is \<open>None\<close> when goroutine \<open>g\<close> is not in the call that the
  event answers.

  Lines 29 to 44, inbound: an \<open>Accept\<close> error is logged and the function returns, which
  runs the deferred \<open>lock.Unlock()\<close>; an accepted \<open>uc\<close> starts a goroutine that calls
  \<open>s.Dial\<close>, and the loop is in \<open>Accept\<close> again.
  Lines 61 to 74, outbound: an \<open>Accept\<close> error is logged and the function returns; with an
  accepted \<open>qc\<close> the loop itself calls \<open>net.Dial\<close>.
\<close>

definition Accept_step :: "nat \<Rightarrow> error + conn \<Rightarrow> world \<Rightarrow> world option" where
  "Accept_step g r w =
     (case goroutines w ! g of
        Inbound_Accept filename node rservice tlscfg \<Rightarrow>
          (case r of
             Inl err \<Rightarrow>
               Some (becomes g Returned
                 (does [logger_Error ''Error accepting Unix socket connection: %s'' err,
                        lock_Unlock filename] w))
           | Inr uc \<Rightarrow>
               Some (go (Inbound_Dial uc) (does [Netceptor_Dial_call node rservice tlscfg] w)))
      | Outbound_Accept filename \<Rightarrow>
          (case r of
             Inl err \<Rightarrow>
               Some (becomes g Returned
                 (does [logger_Error ''Error accepting connection on Receptor network: %s\<newline>'' err] w))
           | Inr qc \<Rightarrow>
               Some (becomes g (Outbound_Dial filename qc)
                 (does [net_Dial_call ''unix'' filename] w)))
      | _ \<Rightarrow> None)"

text \<open>
  Lines 36 to 42, inbound: a \<open>Dial\<close> error is logged and the goroutine returns; otherwise it
  calls \<open>utils.BridgeConns(uc, ..., qc, ...)\<close>.
  Lines 67 to 73, outbound: a \<open>Dial\<close> error is logged and the loop continues; otherwise
  \<open>go utils.BridgeConns(qc, ..., uc, ...)\<close>, and the loop is in \<open>Accept\<close> again.
\<close>

definition Dial_step :: "nat \<Rightarrow> error + conn \<Rightarrow> world \<Rightarrow> world option" where
  "Dial_step g r w =
     (case goroutines w ! g of
        Inbound_Dial uc \<Rightarrow>
          (case r of
             Inl err \<Rightarrow>
               Some (becomes g Returned
                 (does [logger_Error ''Error connecting on Receptor network: %s'' err] w))
           | Inr qc \<Rightarrow>
               Some (becomes g
                 (BridgeConns uc ''unix socket service'' qc ''receptor connection'') w))
      | Outbound_Dial filename qc \<Rightarrow>
          (case r of
             Inl err \<Rightarrow>
               Some (becomes g (Outbound_Accept filename)
                 (does [logger_Error ''Error connecting via Unix socket: %s\<newline>'' err] w))
           | Inr uc \<Rightarrow>
               Some (go (BridgeConns qc ''receptor service'' uc ''unix socket connection'')
                 (becomes g (Outbound_Accept filename) w)))
      | _ \<Rightarrow> None)"

text \<open>
  Modelled from the spec: \<open>utils.BridgeConns\<close> is not among the sources. The spec's
  StreamBridge closes both connections when the relay ends, for any reason, and returns
  nothing.
\<close>

definition BridgeConns_step :: "nat \<Rightarrow> world \<Rightarrow> world option" where
  "BridgeConns_step g w =
     (case goroutines w ! g of
        BridgeConns c1 n1 c2 n2 \<Rightarrow>
          Some (becomes g Returned (does [conn_Close c1, conn_Close c2] w))
      | _ \<Rightarrow> None)"

definition step :: "event \<Rightarrow> world \<Rightarrow> world option" where
  "step ev w =
     (if goroutine_of ev < length (goroutines w) then
        (case ev of
           Accept_returns g r \<Rightarrow> Accept_step g r w
         | Dial_returns g r \<Rightarrow> Dial_step g r w
         | BridgeConns_returns g \<Rightarrow> BridgeConns_step g w)
      else None)"

text \<open>A run: the events one after the other, \<open>None\<close> when one of them answers no call.\<close>

fun run :: "event list \<Rightarrow> world \<Rightarrow> world option" where
  "run [] w = Some w"
| "run (ev # evs) w = (case step ev w of None \<Rightarrow> None | Some w' \<Rightarrow> run evs w')"

subsection \<open>The two services\<close>

text \<open>
  \<open>UnixProxyServiceInbound\<close> (lines 20 to 48) and \<open>UnixProxyServiceOutbound\<close> (lines 51 to
  78): the returned error (\<open>None\<close> is \<open>nil\<close>) and the process after the call.
\<close>

definition UnixProxyServiceInbound ::
  "env \<Rightarrow> string \<Rightarrow> FileMode \<Rightarrow> string \<Rightarrow> string \<Rightarrow> tls_Config option \<Rightarrow> world
    \<Rightarrow> error option \<times> world" where
  "UnixProxyServiceInbound s filename permissions node rservice tlscfg w =
     (let w1 = does [UnixSocketListen_call filename permissions] w in
      case UnixSocketListen s filename permissions of
        Some err \<Rightarrow> (Some (fmt_Errorf_s ''error opening Unix socket: '' err), w1)
      | None \<Rightarrow> (None, go (Inbound_Accept filename node rservice tlscfg) w1))"

definition UnixProxyServiceOutbound ::
  "env \<Rightarrow> string \<Rightarrow> tls_Config option \<Rightarrow> string \<Rightarrow> world \<Rightarrow> error option \<times> world" where
  "UnixProxyServiceOutbound s service tlscfg filename w =
     (let metadata = [(''type'', ''Unix Proxy''), (''filename'', filename)];
          w1 = does [ListenAndAdvertise_call service tlscfg metadata] w in
      case ListenAndAdvertise s service tlscfg metadata of
        Some err \<Rightarrow> (Some (fmt_Errorf_s ''error listening on Receptor network: '' err), w1)
      | None \<Rightarrow> (None, go (Outbound_Accept filename) w1))"

subsection \<open>The configuration objects\<close>

text \<open>An octal literal by its digits: \<open>0o600\<close> is \<open>octal [6, 0, 0]\<close>.\<close>

definition octal :: "nat list \<Rightarrow> int" where
  "octal ds = foldl (\<lambda>a d. 8 * a + int d) 0 ds"

text \<open>
  The command-line objects (lines 81 to 117). The \<open>default:"0600"\<close> tag of \<open>Permissions\<close> is
  read by the command-line library, which fills the field before \<open>Run\<close>.
\<close>

record unixProxyInboundCfg =
  Filename :: string
  Permissions :: int
  RemoteNode :: string
  RemoteService :: string
  TLS :: string

definition unixProxyInboundCfg_Run :: "env \<Rightarrow> unixProxyInboundCfg \<Rightarrow> world \<Rightarrow> error option \<times> world" where
  "unixProxyInboundCfg_Run s cfg w =
     (let w1 = does [logger_Debug ''Running Unix socket inbound proxy service %v\<newline>''] w in
      case GetClientTLSConfig s (unixProxyInboundCfg.TLS cfg) (unixProxyInboundCfg.RemoteNode cfg) ''receptor'' of
        Inl err \<Rightarrow> (Some err, w1)
      | Inr tlscfg \<Rightarrow>
          UnixProxyServiceInbound s (unixProxyInboundCfg.Filename cfg)
            (os_FileMode (unixProxyInboundCfg.Permissions cfg))
            (unixProxyInboundCfg.RemoteNode cfg) (unixProxyInboundCfg.RemoteService cfg) tlscfg w1)"

text \<open>
  Modelled from the spec: the command-line library that builds a \<open>unixProxyInboundCfg\<close>
  from the arguments is not among the sources. The spec gives the local socket
  "permission bits (default: owner read/write only)": a field that the arguments leave
  unspecified receives the default of its tag, for \<open>Permissions\<close> the text \<open>0600\<close> of
  \<open>default:"0600"\<close> (line 83), whose digits are the octal number that is owner read/write
  only. \<open>unixProxyInboundArgs\<close> is what the arguments give, \<open>None\<close> for permissions that
  they leave unspecified.
\<close>

record unixProxyInboundArgs =
  Filename :: string
  Permissions :: "int option"
  RemoteNode :: string
  RemoteService :: string
  TLS :: string

definition Permissions_default :: string where
  "Permissions_default = ''0600''"

definition octal_digit :: "char \<Rightarrow> nat" where
  "octal_digit c = of_char c - of_char CHR ''0''"

definition cmdline_defaults :: "unixProxyInboundArgs \<Rightarrow> unixProxyInboundCfg" where
  "cmdline_defaults a =
     \<lparr>unixProxyInboundCfg.Filename = unixProxyInboundArgs.Filename a,
      unixProxyInboundCfg.Permissions =
        (case unixProxyInboundArgs.Permissions a of
           None \<Rightarrow> octal (map octal_digit Permissions_default)
         | Some v \<Rightarrow> v),
      unixProxyInboundCfg.RemoteNode = unixProxyInboundArgs.RemoteNode a,
      unixProxyInboundCfg.RemoteService = unixProxyInboundArgs.RemoteService a,
      unixProxyInboundCfg.TLS = unixProxyInboundArgs.TLS a\<rparr>"

record unixProxyOutboundCfg =
  Service :: string
  Filename :: string
  TLS :: string

definition unixProxyOutboundCfg_Run :: "env \<Rightarrow> unixProxyOutboundCfg \<Rightarrow> world \<Rightarrow> error option \<times> world" where
  "unixProxyOutboundCfg_Run s cfg w =
     (let w1 = does [logger_Debug ''Running Unix socket inbound proxy service %s\<newline>''] w in
      case GetServerTLSConfig s (unixProxyOutboundCfg.TLS cfg) of
        Inl err \<Rightarrow> (Some err, w1)
      | Inr tlscfg \<Rightarrow>
          UnixProxyServiceOutbound s (unixProxyOutboundCfg.Service cfg) tlscfg
            (unixProxyOutboundCfg.Filename cfg) w1)"

text \<open>The exported objects (lines 129 to 182). \<open>Permissions\<close> is a pointer: \<open>None\<close> is nil.\<close>

record UnixInProxy =
  File :: string
  Permissions :: "int option"
  RemoteNode :: string
  RemoteService :: string
  TLS :: tls_ClientConf

definition UnixInProxy_setup :: "env \<Rightarrow> UnixInProxy \<Rightarrow> world \<Rightarrow> error option \<times> world" where
  "UnixInProxy_setup nc p w =
     (let perms = (case UnixInProxy.Permissions p of None \<Rightarrow> octal [6, 0, 0] | Some v \<Rightarrow> v) in
      case ClientConf_TLSConfig nc (UnixInProxy.TLS p) of
        Inl err \<Rightarrow>
          (Some (fmt_Errorf_s_w ''could not create tls config for unix inbound proxy ''
             (UnixInProxy.File p) err), w)
      | Inr t \<Rightarrow>
          UnixProxyServiceInbound nc (UnixInProxy.File p) (os_FileMode perms)
            (UnixInProxy.RemoteNode p) (UnixInProxy.RemoteService p) t w)"

record UnixOutProxy =
  Service :: string
  File :: string
  TLS :: tls_ServerConf

definition UnixOutProxy_setup :: "env \<Rightarrow> UnixOutProxy \<Rightarrow> world \<Rightarrow> error option \<times> world" where
  "UnixOutProxy_setup nc p w =
     (case ServerConf_TLSConfig nc (UnixOutProxy.TLS p) of
        Inl err \<Rightarrow>
          (Some (fmt_Errorf_s_w ''could not create tls config for unix outbound proxy ''
             (UnixOutProxy.File p) err), w)
      | Inr t \<Rightarrow> UnixProxyServiceOutbound nc (UnixOutProxy.Service p) t (UnixOutProxy.File p) w)"

subsection \<open>Example surroundings\<close>

text \<open>Every set-up call succeeds; an empty TLS name gives the nil configuration.\<close>

definition tls_of_name :: "string \<Rightarrow> tls_Config option" where
  "tls_of_name name = (if name = [] then None else Some (TLSConfig name))"

definition env_ok :: env where
  "env_ok = \<lparr>UnixSocketListen = (\<lambda>filename permissions. None),
             ListenAndAdvertise = (\<lambda>service tlscfg metadata. None),
             GetClientTLSConfig = (\<lambda>name node kind. Inr (tls_of_name name)),
             GetServerTLSConfig = (\<lambda>name. Inr (tls_of_name name)),
             ClientConf_TLSConfig = (\<lambda>conf. Inr (tls_of_name conf)),
             ServerConf_TLSConfig = (\<lambda>conf. Inr (tls_of_name conf))\<rparr>"

text \<open>The TLS look-ups succeed, the two listeners fail.\<close>

definition env_nolisten :: env where
  "env_nolisten = env_ok\<lparr>UnixSocketListen := (\<lambda>filename permissions. Some (Err ''permission denied'')),
             ListenAndAdvertise := (\<lambda>service tlscfg metadata. Some (Err ''service already in use''))\<rparr>"

text \<open>The TLS look-ups fail.\<close>

definition env_notls :: env where
  "env_notls = env_ok\<lparr>GetClientTLSConfig := (\<lambda>name node kind. Inl (Err ''unknown TLS config'')),
             GetServerTLSConfig := (\<lambda>name. Inl (Err ''unknown TLS config'')),
             ClientConf_TLSConfig := (\<lambda>conf. Inl (Err ''unknown TLS config'')),
             ServerConf_TLSConfig := (\<lambda>conf. Inl (Err ''unknown TLS config''))\<rparr>"

subsection \<open>Observations\<close>

text \<open>
  \<open>is_closed w c\<close>: \<open>Close\<close> has been called on the connection \<open>c\<close>.
  \<open>inbound_inv\<close> describes the process of one inbound service: its first goroutine is the
  accept loop, still in \<open>Accept\<close> with the lock never released, or returned with the lock
  released once; no other goroutine is an inbound accept loop.
\<close>

definition is_closed :: "world \<Rightarrow> conn \<Rightarrow> bool" where
  "is_closed w c = (conn_Close c \<in> set (effects w))"

fun at_Inbound_Accept :: "goroutine \<Rightarrow> bool" where
  "at_Inbound_Accept (Inbound_Accept f n r t) = True"
| "at_Inbound_Accept g = False"

definition inbound_inv :: "string \<Rightarrow> string \<Rightarrow> string \<Rightarrow> tls_Config option \<Rightarrow> world \<Rightarrow> bool" where
  "inbound_inv f n r t w \<longleftrightarrow>
     goroutines w \<noteq> [] \<and>
     (goroutines w ! 0 = Inbound_Accept f n r t \<and> count_list (effects w) (lock_Unlock f) = 0 \<or>
      goroutines w ! 0 = Returned \<and> count_list (effects w) (lock_Unlock f) = 1) \<and>
     list_all (\<lambda>g. \<not> at_Inbound_Accept g) (tl (goroutines w))"

text \<open>Configuration objects for the examples.\<close>

definition example_UnixInProxy :: UnixInProxy where
  "example_UnixInProxy = \<lparr>UnixInProxy.File = ''/tmp/in.sock'', UnixInProxy.Permissions = None,
     UnixInProxy.RemoteNode = ''node1'', UnixInProxy.RemoteService = ''svc'',
     UnixInProxy.TLS = ''client''\<rparr>"

definition example_UnixOutProxy :: UnixOutProxy where
  "example_UnixOutProxy = \<lparr>UnixOutProxy.Service = ''svc'', UnixOutProxy.File = ''/tmp/out.sock'',
     UnixOutProxy.TLS = ''server''\<rparr>"

definition example_unixProxyInboundCfg :: unixProxyInboundCfg where
  "example_unixProxyInboundCfg = \<lparr>unixProxyInboundCfg.Filename = ''/tmp/in.sock'',
     unixProxyInboundCfg.Permissions = octal [6, 0, 0],
     unixProxyInboundCfg.RemoteNode = ''node1'', unixProxyInboundCfg.RemoteService = ''svc'',
     unixProxyInboundCfg.TLS = ''client''\<rparr>"

definition example_unixProxyInboundArgs :: unixProxyInboundArgs where
  "example_unixProxyInboundArgs = \<lparr>unixProxyInboundArgs.Filename = ''/tmp/in.sock'',
     unixProxyInboundArgs.Permissions = None,
     unixProxyInboundArgs.RemoteNode = ''node1'', unixProxyInboundArgs.RemoteService = ''svc'',
     unixProxyInboundArgs.TLS = ''client''\<rparr>"

definition example_unixProxyOutboundCfg :: unixProxyOutboundCfg where
  "example_unixProxyOutboundCfg = \<lparr>unixProxyOutboundCfg.Service = ''svc'',
     unixProxyOutboundCfg.Filename = ''/tmp/out.sock'', unixProxyOutboundCfg.TLS = ''server''\<rparr>"


section \<open>Properties of \<open>RandomString\<close>\<close>

lemma length_charset: "length charset = 62"
  by (simp add: charset_def)

lemma rand_Int_succeeds_iff: "rand_Int_succeeds rd n \<longleftrightarrow> (\<forall>k<n. \<exists>r. rd k = Some r)"
  by (simp add: rand_Int_succeeds_def list_all_iff Ball_def)

lemma length_picks: "length (picks rd i n) = n - i"
  by (simp add: picks_def)

lemma set_picks: "set (picks rd i n) \<subseteq> set charset"
proof
  fix c assume "c \<in> set (picks rd i n)"
  then obtain k where c: "c = charset ! nat (int (the (rd k)) mod 62)"
    by (auto simp: picks_def)
  have "nat (int (the (rd k)) mod 62) < length charset"
    by (simp add: length_charset nat_less_iff)
  with c show "c \<in> set charset"
    by simp
qed

lemma RandomString_loop_picks:
  assumes "rand_Int_succeeds rd (nat n)" and "0 \<le> i"
  shows "RandomString_loop rd n i acc = Inr (acc @ picks rd (nat i) (nat n))"
  using assms
proof (induction rd n i acc rule: RandomString_loop.induct)
  case (1 rd n i randbytes)
  show ?case
  proof (cases "i < n")
    case False
    then have "picks rd (nat i) (nat n) = []"
      by (simp add: picks_def)
    with False show ?thesis
      by (simp add: RandomString_loop.simps [of rd n i])
  next
    case True
    then have lt: "nat i < nat n"
      using "1.prems"(2) by simp
    from "1.prems"(1) have "\<forall>k<nat n. \<exists>r. rd k = Some r"
      by (simp only: rand_Int_succeeds_iff)
    with lt obtain r where r: "rd (nat i) = Some r"
      by blast
    let ?idx = "int r mod 62"
    have idx: "rand_Int rd (nat i) (int (length charset)) = Some ?idx"
      using r by (simp add: rand_Int_def length_charset)
    have ix: "index_string charset ?idx = Inr (charset ! nat ?idx)"
      by (simp add: index_string_def length_charset)
    have step: "RandomString_loop rd n (i + 1) (randbytes @ [charset ! nat ?idx]) =
        Inr ((randbytes @ [charset ! nat ?idx]) @ picks rd (nat (i + 1)) (nat n))"
      using "1.IH" [OF True idx ix] "1.prems" by simp
    from lt have "picks rd (nat i) (nat n) = charset ! nat ?idx # picks rd (nat (i + 1)) (nat n)"
      using r "1.prems"(2) by (simp add: picks_def upt_conv_Cons nat_add_distrib)
    with True idx ix step show ?thesis
      by (simp add: RandomString_loop.simps [of rd n i])
  qed
qed

lemma RandomString_picks:
  assumes "0 \<le> n" and "n \<le> int (maxAlloc rt)" and "serves rt n"
    and "rand_Int_succeeds rd (nat n)"
  shows "RandomString rt rd n = Inr (picks rd 0 (nat n))"
  using assms RandomString_loop_picks [of rd n 0 "[]"]
  by (simp add: RandomString_def make_bytes_def string_of_bytes_def length_picks)

lemma RandomString_zero: "RandomString rt rd 0 = Inr []"
  by (simp add: RandomString_def make_bytes_def string_of_bytes_def serves_def
      RandomString_loop.simps [of rd 0 0])

lemma example_Reader_succeeds: "rand_Int_succeeds example_Reader n"
  by (simp add: rand_Int_succeeds_iff example_Reader_def)

lemmas RandomString_eval = RandomString_def make_bytes_def string_of_bytes_def serves_def
  RandomString_loop.simps rand_Int_def index_string_def charset_def example_Reader_def
  failing_Reader_def example_runtime_def

text \<open>
  C9, as amended. For every \<open>n\<close> with \<open>0 \<le> n\<close> that is not above the allocation limit of the
  runtime, when the heap serves the \<open>n\<close> bytes and none of the \<open>n\<close> calls of \<open>rand.Int\<close>
  returns an error, \<open>RandomString(n)\<close> returns a string of length exactly \<open>n\<close> whose
  characters all belong to the 62-character alphanumeric charset; for \<open>n = 0\<close> it returns
  the empty string.
\<close>

theorem RandomString_charset:
  assumes "0 \<le> n" and "n \<le> int (maxAlloc rt)" and "serves rt n"
    and "rand_Int_succeeds rd (nat n)"
  shows "(\<exists>s. RandomString rt rd n = Inr s \<and> length s = nat n \<and>
            set s \<subseteq> set ''0123456789abcdefghijklmnopqrstuvwxyzABCDEFGHIJKLMNOPQRSTUVWXYZ'') \<and>
         RandomString rt rd 0 = Inr []"
  using assms set_picks [of rd 0 "nat n"]
  by (simp add: RandomString_picks length_picks RandomString_zero charset_def)

theorem RandomString_charset_witness:
  "(0::int) \<le> 3 \<and> 3 \<le> int (maxAlloc example_runtime) \<and> serves example_runtime 3 \<and>
   rand_Int_succeeds example_Reader (nat 3) \<and>
   RandomString example_runtime example_Reader 3 = Inr ''3ah'' \<and>
   (\<exists>s. RandomString example_runtime example_Reader 3 = Inr s \<and> length s = nat 3 \<and>
            set s \<subseteq> set ''0123456789abcdefghijklmnopqrstuvwxyzABCDEFGHIJKLMNOPQRSTUVWXYZ'')"
proof -
  have h1: "(0::int) \<le> 3" by simp
  have h2: "3 \<le> int (maxAlloc example_runtime)"
    and h3: "serves example_runtime 3"
    by (simp_all add: example_runtime_def serves_def)
  have h4: "rand_Int_succeeds example_Reader (nat 3)"
    by (rule example_Reader_succeeds)
  have ev: "RandomString example_runtime example_Reader 3 = Inr ''3ah''"
    by (simp add: RandomString_eval)
  from RandomString_charset [OF h1 h2 h3 h4] h1 h2 h3 h4 ev show ?thesis
    by blast
qed

text \<open>
  C9 as stated fails in four ways, and each condition of the amended claim answers one of
  them. A negative length and a length above the allocation limit (\<open>2 ^ 62\<close>) make
  \<open>make\<close> panic, so no string, empty or not, is returned; a length of \<open>2 ^ 40\<close> is refused by
  a heap that serves a gibibyte; and when \<open>rand.Int\<close> returns an error, \<open>idx\<close> is nil and
  \<open>idx.Int64()\<close> panics.
\<close>

theorem RandomString_charset_counterexample:
  "RandomString example_runtime example_Reader (- 1) = Inl MakesliceCapOutOfRange \<and>
   RandomString example_runtime example_Reader (- 1) \<noteq> Inr [] \<and>
   RandomString example_runtime example_Reader (2 ^ 62) = Inl MakesliceCapOutOfRange \<and>
   RandomString example_runtime example_Reader (2 ^ 40) = Inl FatalOutOfMemory \<and>
   RandomString example_runtime failing_Reader 1 = Inl NilPointerDereference"
  by (simp add: RandomString_eval)

text \<open>
  C10, as amended. For every prefix \<open>p\<close> and every \<open>n\<close> with \<open>0 \<le> n\<close> that is not above the
  allocation limit of the runtime, when the heap serves the \<open>n\<close> bytes and the \<open>len(p) + n\<close>
  bytes of the result and none of the \<open>n\<close> calls of \<open>rand.Int\<close> returns an error,
  \<open>RandomStringWithPrefix(p, n)\<close> returns a string that begins with \<open>p\<close>, character for
  character, and has the length \<open>len(p) + n\<close>.
\<close>

theorem RandomStringWithPrefix_prefix:
  assumes "0 \<le> n" and "n \<le> int (maxAlloc rt)" and "serves rt n"
    and "serves rt (int (length p) + n)" and "rand_Int_succeeds rd (nat n)"
  shows "\<exists>s. RandomStringWithPrefix rt rd p n = Inr s \<and> take (length p) s = p \<and>
            length s = length p + nat n"
  using assms
  by (simp add: RandomStringWithPrefix_def RandomString_picks fmt_Sprintf_s_s_def length_picks)

theorem RandomStringWithPrefix_prefix_witness:
  "(0::int) \<le> 2 \<and> 2 \<le> int (maxAlloc example_runtime) \<and> serves example_runtime 2 \<and>
   serves example_runtime (int (length ''job-'') + 2) \<and>
   rand_Int_succeeds example_Reader (nat 2) \<and>
   RandomStringWithPrefix example_runtime example_Reader ''job-'' 2 = Inr ''job-3a'' \<and>
   (\<exists>s. RandomStringWithPrefix example_runtime example_Reader ''job-'' 2 = Inr s \<and>
        take (length ''job-'') s = ''job-'' \<and> length s = length ''job-'' + nat 2)"
proof -
  have h1: "(0::int) \<le> 2" by simp
  have h2: "2 \<le> int (maxAlloc example_runtime)"
    and h3: "serves example_runtime 2"
    and h4: "serves example_runtime (int (length ''job-'') + 2)"
    by (simp_all add: example_runtime_def serves_def)
  have h5: "rand_Int_succeeds example_Reader (nat 2)"
    by (rule example_Reader_succeeds)
  have ev: "RandomStringWithPrefix example_runtime example_Reader ''job-'' 2 = Inr ''job-3a''"
    by (simp add: RandomStringWithPrefix_def fmt_Sprintf_s_s_def RandomString_eval)
  from RandomStringWithPrefix_prefix [OF h1 h2 h3 h4 h5] h1 h2 h3 h4 h5 ev show ?thesis
    by blast
qed

text \<open>
  C10 as stated fails: for the prefix \<open>job-\<close>, the length \<open>2 ^ 62\<close> is above the allocation
  limit and \<open>make\<close> panics; the length \<open>2 ^ 40\<close> is refused by a heap that serves a
  gibibyte; and when \<open>rand.Int\<close> returns an error, \<open>idx.Int64()\<close> panics. No string is
  returned in any of them.
\<close>

theorem RandomStringWithPrefix_prefix_counterexample:
  "RandomStringWithPrefix example_runtime example_Reader ''job-'' (2 ^ 62) =
     Inl MakesliceCapOutOfRange \<and>
   RandomStringWithPrefix example_runtime example_Reader ''job-'' (2 ^ 40) =
     Inl FatalOutOfMemory \<and>
   RandomStringWithPrefix example_runtime failing_Reader ''job-'' 1 =
     Inl NilPointerDereference"
  by (simp add: RandomStringWithPrefix_def RandomString_eval)


section \<open>Properties of the proxy services\<close>

subsection \<open>Single steps\<close>

lemma goroutines_go [simp]: "goroutines (go g w) = goroutines w @ [g]"
  and effects_go [simp]: "effects (go g w) = effects w"
  by (simp_all add: go_def)

lemma goroutines_does [simp]: "goroutines (does es w) = goroutines w"
  and effects_does [simp]: "effects (does es w) = effects w @ es"
  by (simp_all add: does_def)

lemma goroutines_becomes [simp]: "goroutines (becomes g s w) = (goroutines w)[g := s]"
  and effects_becomes [simp]: "effects (becomes g s w) = effects w"
  by (simp_all add: becomes_def)

lemmas step_defs = step_def Accept_step_def Dial_step_def BridgeConns_step_def

lemma step_Accept_Inbound_error:
  assumes "l < length (goroutines w)" and "goroutines w ! l = Inbound_Accept f n r t"
  shows "step (Accept_returns l (Inl err)) w =
    Some (becomes l Returned
      (does [logger_Error ''Error accepting Unix socket connection: %s'' err, lock_Unlock f] w))"
  using assms by (simp add: step_defs)

lemma step_Accept_Inbound_conn:
  assumes "l < length (goroutines w)" and "goroutines w ! l = Inbound_Accept f n r t"
  shows "step (Accept_returns l (Inr uc)) w =
    Some (go (Inbound_Dial uc) (does [Netceptor_Dial_call n r t] w))"
  using assms by (simp add: step_defs)

lemma step_Accept_Outbound_conn:
  assumes "l < length (goroutines w)" and "goroutines w ! l = Outbound_Accept f"
  shows "step (Accept_returns l (Inr qc)) w =
    Some (becomes l (Outbound_Dial f qc) (does [net_Dial_call ''unix'' f] w))"
  using assms by (simp add: step_defs)

lemma step_Dial_Inbound_error:
  assumes "g < length (goroutines w)" and "goroutines w ! g = Inbound_Dial uc"
  shows "step (Dial_returns g (Inl err)) w =
    Some (becomes g Returned
      (does [logger_Error ''Error connecting on Receptor network: %s'' err] w))"
  using assms by (simp add: step_defs)

lemma step_Dial_Inbound_conn:
  assumes "g < length (goroutines w)" and "goroutines w ! g = Inbound_Dial uc"
  shows "step (Dial_returns g (Inr qc)) w =
    Some (becomes g (BridgeConns uc ''unix socket service'' qc ''receptor connection'') w)"
  using assms by (simp add: step_defs)

lemma step_Dial_Outbound_error:
  assumes "g < length (goroutines w)" and "goroutines w ! g = Outbound_Dial f qc"
  shows "step (Dial_returns g (Inl err)) w =
    Some (becomes g (Outbound_Accept f)
      (does [logger_Error ''Error connecting via Unix socket: %s\<newline>'' err] w))"
  using assms by (simp add: step_defs)

lemma step_Dial_Outbound_conn:
  assumes "g < length (goroutines w)" and "goroutines w ! g = Outbound_Dial f qc"
  shows "step (Dial_returns g (Inr uc)) w =
    Some (go (BridgeConns qc ''receptor service'' uc ''unix socket connection'')
      (becomes g (Outbound_Accept f) w))"
  using assms by (simp add: step_defs)

lemma step_Accept_Outbound_Dial:
  assumes "goroutines w ! l = Outbound_Dial f qc"
  shows "step (Accept_returns l r) w = None"
  using assms by (simp add: step_defs)

lemma step_Accept_Returned:
  assumes "goroutines w ! l = Returned"
  shows "step (Accept_returns l r) w = None"
  using assms by (simp add: step_defs)

text \<open>An event moves its own goroutine only.\<close>

lemma step_other_goroutine:
  assumes "step ev w = Some w'" and "k < length (goroutines w)" and "k \<noteq> goroutine_of ev"
  shows "goroutines w' ! k = goroutines w ! k"
proof (cases ev)
  case (Accept_returns g res)
  with assms show ?thesis
    by (auto simp: step_defs nth_append nth_list_update
        split: if_splits goroutine.splits sum.splits)
next
  case (Dial_returns g res)
  with assms show ?thesis
    by (auto simp: step_defs nth_append nth_list_update
        split: if_splits goroutine.splits sum.splits)
next
  case (BridgeConns_returns g)
  with assms show ?thesis
    by (auto simp: step_defs nth_list_update split: if_splits goroutine.splits)
qed

lemma errors_Is_refl: "errors_Is e e"
  by (cases e) simp_all

lemmas example_defs = example_unixProxyInboundArgs_def example_UnixInProxy_def example_UnixOutProxy_def
  example_unixProxyInboundCfg_def example_unixProxyOutboundCfg_def

subsection \<open>The process of one inbound service\<close>

lemma list_all_tl_nth:
  "list_all P (tl xs) \<longleftrightarrow> (\<forall>i. 0 < i \<and> i < length xs \<longrightarrow> P (xs ! i))"
proof (cases xs)
  case Nil
  then show ?thesis by simp
next
  case (Cons x ys)
  have "(\<forall>i. 0 < i \<and> i < Suc (length ys) \<longrightarrow> P ((x # ys) ! i)) \<longleftrightarrow> (\<forall>j<length ys. P (ys ! j))"
  proof
    assume h: "\<forall>i. 0 < i \<and> i < Suc (length ys) \<longrightarrow> P ((x # ys) ! i)"
    show "\<forall>j<length ys. P (ys ! j)"
    proof (intro allI impI)
      fix j assume "j < length ys"
      with h have "P ((x # ys) ! Suc j)" by blast
      then show "P (ys ! j)" by simp
    qed
  next
    assume h: "\<forall>j<length ys. P (ys ! j)"
    show "\<forall>i. 0 < i \<and> i < Suc (length ys) \<longrightarrow> P ((x # ys) ! i)"
    proof (intro allI impI)
      fix i assume "0 < i \<and> i < Suc (length ys)"
      then obtain j where "i = Suc j" "j < length ys"
        by (cases i) auto
      with h show "P ((x # ys) ! i)" by simp
    qed
  qed
  with Cons show ?thesis
    by (simp add: list_all_length)
qed

lemma inbound_inv_iff:
  "inbound_inv f n r t w \<longleftrightarrow>
     goroutines w \<noteq> [] \<and>
     (goroutines w ! 0 = Inbound_Accept f n r t \<and> count_list (effects w) (lock_Unlock f) = 0 \<or>
      goroutines w ! 0 = Returned \<and> count_list (effects w) (lock_Unlock f) = 1) \<and>
     (\<forall>i. 0 < i \<and> i < length (goroutines w) \<longrightarrow> \<not> at_Inbound_Accept (goroutines w ! i))"
  by (simp add: inbound_inv_def list_all_tl_nth)

lemma inbound_inv_Accept:
  assumes inv: "inbound_inv f n r t w" and st: "Accept_step g res w = Some w'"
    and g: "g < length (goroutines w)"
  shows "inbound_inv f n r t w' \<and>
    (goroutines w' ! 0 = Returned \<longleftrightarrow>
       goroutines w ! 0 = Returned \<or> (g = 0 \<and> (\<exists>err. res = Inl err)))"
proof (cases "g = 0")
  case True
  from inv have "goroutines w ! 0 = Inbound_Accept f n r t \<or> goroutines w ! 0 = Returned"
    by (auto simp: inbound_inv_iff)
  then show ?thesis
  proof
    assume "goroutines w ! 0 = Returned"
    with st True show ?thesis by (simp add: Accept_step_def)
  next
    assume loop: "goroutines w ! 0 = Inbound_Accept f n r t"
    with inv have cnt: "count_list (effects w) (lock_Unlock f) = 0"
      by (auto simp: inbound_inv_iff)
    show ?thesis
    proof (cases res)
      case (Inl err)
      with st True loop have w': "w' = becomes 0 Returned
          (does [logger_Error ''Error accepting Unix socket connection: %s'' err, lock_Unlock f] w)"
        by (simp add: Accept_step_def)
      with inv cnt g True Inl show ?thesis
        by (simp add: inbound_inv_iff)
    next
      case (Inr uc)
      with st True loop have w': "w' = go (Inbound_Dial uc) (does [Netceptor_Dial_call n r t] w)"
        by (simp add: Accept_step_def)
      with inv cnt g True Inr loop show ?thesis
        by (auto simp: inbound_inv_iff nth_append)
    qed
  qed
next
  case False
  with inv g have "\<not> at_Inbound_Accept (goroutines w ! g)"
    by (simp add: inbound_inv_iff)
  then obtain fl where out: "goroutines w ! g = Outbound_Accept fl"
    using st by (cases "goroutines w ! g") (simp_all add: Accept_step_def)
  show ?thesis
  proof (cases res)
    case (Inl err)
    with st out have w': "w' = becomes g Returned
        (does [logger_Error ''Error accepting connection on Receptor network: %s\<newline>'' err] w)"
      by (simp add: Accept_step_def)
    with inv g False show ?thesis
      by (auto simp: inbound_inv_iff nth_list_update)
  next
    case (Inr qc)
    with st out have w': "w' = becomes g (Outbound_Dial fl qc)
        (does [net_Dial_call ''unix'' fl] w)"
      by (simp add: Accept_step_def)
    with inv g False show ?thesis
      by (auto simp: inbound_inv_iff nth_list_update)
  qed
qed

lemma inbound_inv_Dial:
  assumes inv: "inbound_inv f n r t w" and st: "Dial_step g res w = Some w'"
    and g: "g < length (goroutines w)"
  shows "inbound_inv f n r t w' \<and> (goroutines w' ! 0 = Returned \<longleftrightarrow> goroutines w ! 0 = Returned)"
proof -
  from inv have loop0: "goroutines w ! 0 = Inbound_Accept f n r t \<or> goroutines w ! 0 = Returned"
    by (auto simp: inbound_inv_iff)
  have g0: "g \<noteq> 0"
  proof
    assume "g = 0"
    with st loop0 show False
      by (auto simp: Dial_step_def)
  qed
  from st consider
      uc err where "goroutines w ! g = Inbound_Dial uc" "res = Inl err"
        "w' = becomes g Returned
           (does [logger_Error ''Error connecting on Receptor network: %s'' err] w)"
    | uc qc where "goroutines w ! g = Inbound_Dial uc" "res = Inr qc"
        "w' = becomes g (BridgeConns uc ''unix socket service'' qc ''receptor connection'') w"
    | fl qc err where "goroutines w ! g = Outbound_Dial fl qc" "res = Inl err"
        "w' = becomes g (Outbound_Accept fl)
           (does [logger_Error ''Error connecting via Unix socket: %s\<newline>'' err] w)"
    | fl qc uc where "goroutines w ! g = Outbound_Dial fl qc" "res = Inr uc"
        "w' = go (BridgeConns qc ''receptor service'' uc ''unix socket connection'')
           (becomes g (Outbound_Accept fl) w)"
    by (cases "goroutines w ! g"; cases res) (simp_all add: Dial_step_def)
  then show ?thesis
  proof cases
    case 1
    with inv g g0 show ?thesis
      by (auto simp: inbound_inv_iff nth_list_update)
  next
    case 2
    with inv g g0 show ?thesis
      by (auto simp: inbound_inv_iff nth_list_update)
  next
    case 3
    with inv g g0 show ?thesis
      by (auto simp: inbound_inv_iff nth_list_update)
  next
    case 4
    with inv g g0 show ?thesis
      by (auto simp: inbound_inv_iff nth_list_update nth_append)
  qed
qed

lemma inbound_inv_BridgeConns:
  assumes inv: "inbound_inv f n r t w" and st: "BridgeConns_step g w = Some w'"
    and g: "g < length (goroutines w)"
  shows "inbound_inv f n r t w' \<and> (goroutines w' ! 0 = Returned \<longleftrightarrow> goroutines w ! 0 = Returned)"
proof -
  from inv have loop0: "goroutines w ! 0 = Inbound_Accept f n r t \<or> goroutines w ! 0 = Returned"
    by (auto simp: inbound_inv_iff)
  have g0: "g \<noteq> 0"
  proof
    assume "g = 0"
    with st loop0 show False
      by (auto simp: BridgeConns_step_def)
  qed
  from st obtain c1 c2 where
    "w' = becomes g Returned (does [conn_Close c1, conn_Close c2] w)"
    by (cases "goroutines w ! g") (auto simp: BridgeConns_step_def)
  with inv g g0 show ?thesis
    by (auto simp: inbound_inv_iff nth_list_update)
qed

lemma inbound_inv_step:
  assumes "inbound_inv f n r t w" and "step ev w = Some w'"
  shows "inbound_inv f n r t w' \<and>
    (goroutines w' ! 0 = Returned \<longleftrightarrow>
       goroutines w ! 0 = Returned \<or> (\<exists>err. ev = Accept_returns 0 (Inl err)))"
proof (cases ev)
  case (Accept_returns g res)
  with assms(2) have "g < length (goroutines w)" "Accept_step g res w = Some w'"
    by (simp_all add: step_def split: if_splits)
  from inbound_inv_Accept [OF assms(1) this(2,1)] Accept_returns show ?thesis
    by auto
next
  case (Dial_returns g res)
  with assms(2) have "g < length (goroutines w)" "Dial_step g res w = Some w'"
    by (simp_all add: step_def split: if_splits)
  from inbound_inv_Dial [OF assms(1) this(2,1)] Dial_returns show ?thesis
    by auto
next
  case (BridgeConns_returns g)
  with assms(2) have "g < length (goroutines w)" "BridgeConns_step g w = Some w'"
    by (simp_all add: step_def split: if_splits)
  from inbound_inv_BridgeConns [OF assms(1) this(2,1)] BridgeConns_returns show ?thesis
    by auto
qed

lemma inbound_inv_run:
  assumes "inbound_inv f n r t w" and "run evs w = Some w'"
  shows "inbound_inv f n r t w' \<and>
    (goroutines w' ! 0 = Returned \<longleftrightarrow>
       goroutines w ! 0 = Returned \<or> (\<exists>err. Accept_returns 0 (Inl err) \<in> set evs))"
  using assms
proof (induction evs arbitrary: w)
  case Nil
  then show ?case by simp
next
  case (Cons ev evs)
  from Cons.prems(2) obtain w1 where st: "step ev w = Some w1" and rn: "run evs w1 = Some w'"
    by (auto split: option.splits)
  from inbound_inv_step [OF Cons.prems(1) st] Cons.IH [OF _ rn] show ?case
    by auto
qed

lemma inbound_inv_start:
  assumes "UnixProxyServiceInbound s filename permissions node rservice tlscfg world0 = (None, w0)"
  shows "inbound_inv filename node rservice tlscfg w0"
  using assms
  by (auto simp: UnixProxyServiceInbound_def world0_def inbound_inv_def Let_def go_def does_def
      split: option.splits)

subsection \<open>Dial failures\<close>

text \<open>
  C1, as amended. In \<open>UnixProxyServiceInbound\<close>, for every accepted local connection whose
  dial of the Receptor network (\<open>s.Dial\<close>) fails, the error is logged and the connection's
  goroutine returns without bridging; the function calls no \<open>Close\<close> on the local connection,
  which stays as closed or as open as it was; the accept loop is unaffected and accepts the
  next connection.
\<close>

theorem Inbound_dial_failure:
  assumes "g < length (goroutines w)" and "goroutines w ! g = Inbound_Dial uc"
    and "l < length (goroutines w)"
    and "goroutines w ! l = Inbound_Accept filename node rservice tlscfg"
  shows "\<exists>w'. step (Dial_returns g (Inl err)) w = Some w' \<and>
           goroutines w' = (goroutines w)[g := Returned] \<and>
           effects w' = effects w @ [logger_Error ''Error connecting on Receptor network: %s'' err] \<and>
           is_closed w' uc = is_closed w uc \<and>
           goroutines w' ! l = Inbound_Accept filename node rservice tlscfg \<and>
           step (Accept_returns l (Inr uc')) w' =
             Some (go (Inbound_Dial uc') (does [Netceptor_Dial_call node rservice tlscfg] w'))"
proof -
  let ?w' = "becomes g Returned
      (does [logger_Error ''Error connecting on Receptor network: %s'' err] w)"
  have ne: "l \<noteq> g"
    using assms(2,4) by auto
  have loop: "goroutines ?w' ! l = Inbound_Accept filename node rservice tlscfg"
    using assms(3,4) ne by simp
  have len: "l < length (goroutines ?w')"
    using assms(3) by simp
  show ?thesis
    using step_Dial_Inbound_error [OF assms(1,2), of err] loop
      step_Accept_Inbound_conn [OF len loop, of uc']
    by (simp add: is_closed_def)
qed

theorem Inbound_dial_failure_witness:
  "(1::nat) < length (goroutines \<lparr>goroutines = [Inbound_Accept ''/tmp/in.sock'' ''node1'' ''svc'' None, Inbound_Dial 7], effects = []\<rparr>) \<and>
   step (Dial_returns 1 (Inl (Err ''no route to node'')))
     \<lparr>goroutines = [Inbound_Accept ''/tmp/in.sock'' ''node1'' ''svc'' None, Inbound_Dial 7], effects = []\<rparr> =
   Some \<lparr>goroutines = [Inbound_Accept ''/tmp/in.sock'' ''node1'' ''svc'' None, Returned],
         effects = [logger_Error ''Error connecting on Receptor network: %s'' (Err ''no route to node'')]\<rparr> \<and>
   (\<exists>w'. step (Dial_returns 1 (Inl (Err ''no route to node'')))
       \<lparr>goroutines = [Inbound_Accept ''/tmp/in.sock'' ''node1'' ''svc'' None, Inbound_Dial 7], effects = []\<rparr> = Some w' \<and>
     step (Accept_returns 0 (Inr 8)) w' =
       Some (go (Inbound_Dial 8) (does [Netceptor_Dial_call ''node1'' ''svc'' None] w')))"
proof -
  let ?w = "\<lparr>goroutines = [Inbound_Accept ''/tmp/in.sock'' ''node1'' ''svc'' None, Inbound_Dial 7],
            effects = []\<rparr>"
  have g: "1 < length (goroutines ?w)" and dial: "goroutines ?w ! 1 = Inbound_Dial 7"
    and l: "0 < length (goroutines ?w)"
    and loop: "goroutines ?w ! 0 = Inbound_Accept ''/tmp/in.sock'' ''node1'' ''svc'' None"
    by simp_all
  have ev: "step (Dial_returns 1 (Inl (Err ''no route to node''))) ?w =
      Some \<lparr>goroutines = [Inbound_Accept ''/tmp/in.sock'' ''node1'' ''svc'' None, Returned],
         effects = [logger_Error ''Error connecting on Receptor network: %s'' (Err ''no route to node'')]\<rparr>"
    by (simp add: step_defs does_def becomes_def)
  from Inbound_dial_failure [OF g dial l loop, of "Err ''no route to node''" 8] g ev
  show ?thesis
    by auto
qed

text \<open>
  C1 as stated fails: an inbound service accepts connection 7, the dial fails, and no
  \<open>Close\<close> of connection 7 is among the effects.
\<close>

theorem Inbound_dial_failure_counterexample:
  "run [Accept_returns 0 (Inr 7), Dial_returns 1 (Inl (Err ''no route to node''))]
     (snd (UnixProxyServiceInbound env_ok ''/tmp/in.sock'' 384 ''node1'' ''svc'' None world0)) =
   Some \<lparr>goroutines = [Inbound_Accept ''/tmp/in.sock'' ''node1'' ''svc'' None, Returned],
         effects = [UnixSocketListen_call ''/tmp/in.sock'' 384,
                    Netceptor_Dial_call ''node1'' ''svc'' None,
                    logger_Error ''Error connecting on Receptor network: %s''
                      (Err ''no route to node'')]\<rparr> \<and>
   \<not> is_closed \<lparr>goroutines = [Inbound_Accept ''/tmp/in.sock'' ''node1'' ''svc'' None, Returned],
         effects = [UnixSocketListen_call ''/tmp/in.sock'' 384,
                    Netceptor_Dial_call ''node1'' ''svc'' None,
                    logger_Error ''Error connecting on Receptor network: %s''
                      (Err ''no route to node'')]\<rparr> 7"
  by (simp add: UnixProxyServiceInbound_def env_ok_def world0_def step_defs go_def does_def
      becomes_def is_closed_def)

text \<open>
  C2, as amended. In \<open>UnixProxyServiceOutbound\<close>, for every accepted network connection whose
  dial of the local Unix socket (\<open>net.Dial\<close>) fails, the error is logged and the loop continues
  to the next \<open>Accept\<close>; the function calls no \<open>Close\<close> on the remote connection, which
  stays as closed or as open as it was.
\<close>

theorem Outbound_dial_failure:
  assumes "g < length (goroutines w)" and "goroutines w ! g = Outbound_Dial filename qc"
  shows "\<exists>w'. step (Dial_returns g (Inl err)) w = Some w' \<and>
           goroutines w' = (goroutines w)[g := Outbound_Accept filename] \<and>
           effects w' = effects w @ [logger_Error ''Error connecting via Unix socket: %s\<newline>'' err] \<and>
           is_closed w' qc = is_closed w qc \<and>
           step (Accept_returns g (Inr qc')) w' =
             Some (becomes g (Outbound_Dial filename qc')
               (does [net_Dial_call ''unix'' filename] w'))"
proof -
  let ?w' = "becomes g (Outbound_Accept filename)
      (does [logger_Error ''Error connecting via Unix socket: %s\<newline>'' err] w)"
  have len: "g < length (goroutines ?w')"
    using assms(1) by simp
  have loop: "goroutines ?w' ! g = Outbound_Accept filename"
    using assms(1) by simp
  show ?thesis
    using step_Dial_Outbound_error [OF assms, of err]
      step_Accept_Outbound_conn [OF len loop, of qc']
    by (simp add: is_closed_def)
qed

theorem Outbound_dial_failure_witness:
  "(0::nat) < length (goroutines \<lparr>goroutines = [Outbound_Dial ''/tmp/out.sock'' 7], effects = []\<rparr>) \<and>
   step (Dial_returns 0 (Inl (Err ''no such file'')))
     \<lparr>goroutines = [Outbound_Dial ''/tmp/out.sock'' 7], effects = []\<rparr> =
   Some \<lparr>goroutines = [Outbound_Accept ''/tmp/out.sock''],
         effects = [logger_Error ''Error connecting via Unix socket: %s\<newline>'' (Err ''no such file'')]\<rparr> \<and>
   (\<exists>w'. step (Dial_returns 0 (Inl (Err ''no such file'')))
       \<lparr>goroutines = [Outbound_Dial ''/tmp/out.sock'' 7], effects = []\<rparr> = Some w' \<and>
     step (Accept_returns 0 (Inr 8)) w' =
       Some (becomes 0 (Outbound_Dial ''/tmp/out.sock'' 8)
               (does [net_Dial_call ''unix'' ''/tmp/out.sock''] w')))"
proof -
  let ?w = "\<lparr>goroutines = [Outbound_Dial ''/tmp/out.sock'' 7], effects = []\<rparr>"
  have g: "0 < length (goroutines ?w)"
    and dial: "goroutines ?w ! 0 = Outbound_Dial ''/tmp/out.sock'' 7"
    by simp_all
  have ev: "step (Dial_returns 0 (Inl (Err ''no such file''))) ?w =
      Some \<lparr>goroutines = [Outbound_Accept ''/tmp/out.sock''],
         effects = [logger_Error ''Error connecting via Unix socket: %s\<newline>'' (Err ''no such file'')]\<rparr>"
    by (simp add: step_defs does_def becomes_def)
  from Outbound_dial_failure [OF g dial, of "Err ''no such file''" 8] g ev
  show ?thesis
    by auto
qed

text \<open>
  C2 as stated fails: an outbound service accepts connection 7, the dial of the Unix socket
  fails, and no \<open>Close\<close> of connection 7 is among the effects.
\<close>

theorem Outbound_dial_failure_counterexample:
  "run [Accept_returns 0 (Inr 7), Dial_returns 0 (Inl (Err ''no such file''))]
     (snd (UnixProxyServiceOutbound env_ok ''svc'' None ''/tmp/out.sock'' world0)) =
   Some \<lparr>goroutines = [Outbound_Accept ''/tmp/out.sock''],
         effects = [ListenAndAdvertise_call ''svc'' None
                      [(''type'', ''Unix Proxy''), (''filename'', ''/tmp/out.sock'')],
                    net_Dial_call ''unix'' ''/tmp/out.sock'',
                    logger_Error ''Error connecting via Unix socket: %s\<newline>''
                      (Err ''no such file'')]\<rparr> \<and>
   \<not> is_closed \<lparr>goroutines = [Outbound_Accept ''/tmp/out.sock''],
         effects = [ListenAndAdvertise_call ''svc'' None
                      [(''type'', ''Unix Proxy''), (''filename'', ''/tmp/out.sock'')],
                    net_Dial_call ''unix'' ''/tmp/out.sock'',
                    logger_Error ''Error connecting via Unix socket: %s\<newline>''
                      (Err ''no such file'')]\<rparr> 7"
  by (simp add: UnixProxyServiceOutbound_def env_ok_def world0_def step_defs go_def does_def
      becomes_def is_closed_def)

subsection \<open>Where the dial runs\<close>

text \<open>
  C3, as amended. In \<open>UnixProxyServiceInbound\<close> every accepted connection starts its own
  goroutine that performs both the dial and the bridge, and the loop is in \<open>Accept\<close> again
  at once, whatever happens to that dial. In \<open>UnixProxyServiceOutbound\<close> the accept loop
  itself performs the dial: no goroutine is started for it, no \<open>Accept\<close> returns before the
  dial has, and only the bridge runs in a goroutine of its own. In both, an event of one
  goroutine leaves every other goroutine where it is.
\<close>

theorem dial_placement:
  assumes "l < length (goroutines w)"
  shows "(goroutines w ! l = Inbound_Accept filename node rservice tlscfg \<longrightarrow>
           (\<exists>w'. step (Accept_returns l (Inr uc)) w = Some w' \<and>
              goroutines w' = goroutines w @ [Inbound_Dial uc] \<and>
              (\<forall>r. step (Accept_returns l r) w' \<noteq> None) \<and>
              step (Dial_returns (length (goroutines w)) (Inr qc)) w' =
                Some (becomes (length (goroutines w))
                  (BridgeConns uc ''unix socket service'' qc ''receptor connection'') w'))) \<and>
         (goroutines w ! l = Outbound_Accept filename \<longrightarrow>
           (\<exists>w'. step (Accept_returns l (Inr qc)) w = Some w' \<and>
              goroutines w' = (goroutines w)[l := Outbound_Dial filename qc] \<and>
              (\<forall>r. step (Accept_returns l r) w' = None) \<and>
              step (Dial_returns l (Inr uc)) w' =
                Some (go (BridgeConns qc ''receptor service'' uc ''unix socket connection'')
                  (becomes l (Outbound_Accept filename) w')))) \<and>
         (\<forall>ev w1 k. step ev w = Some w1 \<and> k < length (goroutines w) \<and> k \<noteq> goroutine_of ev \<longrightarrow>
            goroutines w1 ! k = goroutines w ! k)"
proof (intro conjI impI allI)
  assume loop: "goroutines w ! l = Inbound_Accept filename node rservice tlscfg"
  let ?w' = "go (Inbound_Dial uc) (does [Netceptor_Dial_call node rservice tlscfg] w)"
  have len: "l < length (goroutines ?w')" "length (goroutines w) < length (goroutines ?w')"
    using assms by simp_all
  have loop': "goroutines ?w' ! l = Inbound_Accept filename node rservice tlscfg"
    using assms loop by (simp add: nth_append)
  have dial: "goroutines ?w' ! length (goroutines w) = Inbound_Dial uc"
    by simp
  have "step (Accept_returns l r) ?w' \<noteq> None" for r
    using len(1) loop' by (cases r) (simp_all add: step_defs)
  then show "\<exists>w'. step (Accept_returns l (Inr uc)) w = Some w' \<and>
              goroutines w' = goroutines w @ [Inbound_Dial uc] \<and>
              (\<forall>r. step (Accept_returns l r) w' \<noteq> None) \<and>
              step (Dial_returns (length (goroutines w)) (Inr qc)) w' =
                Some (becomes (length (goroutines w))
                  (BridgeConns uc ''unix socket service'' qc ''receptor connection'') w')"
    using step_Accept_Inbound_conn [OF assms loop, of uc]
      step_Dial_Inbound_conn [OF len(2) dial, of qc]
    by simp
next
  assume loop: "goroutines w ! l = Outbound_Accept filename"
  let ?w' = "becomes l (Outbound_Dial filename qc) (does [net_Dial_call ''unix'' filename] w)"
  have len: "l < length (goroutines ?w')"
    using assms by simp
  have dial: "goroutines ?w' ! l = Outbound_Dial filename qc"
    using assms by simp
  show "\<exists>w'. step (Accept_returns l (Inr qc)) w = Some w' \<and>
              goroutines w' = (goroutines w)[l := Outbound_Dial filename qc] \<and>
              (\<forall>r. step (Accept_returns l r) w' = None) \<and>
              step (Dial_returns l (Inr uc)) w' =
                Some (go (BridgeConns qc ''receptor service'' uc ''unix socket connection'')
                  (becomes l (Outbound_Accept filename) w'))"
    using step_Accept_Outbound_conn [OF assms loop, of qc]
      step_Dial_Outbound_conn [OF len dial, of uc]
      step_Accept_Outbound_Dial [OF dial]
    by simp
next
  fix ev w1 k
  assume "step ev w = Some w1 \<and> k < length (goroutines w) \<and> k \<noteq> goroutine_of ev"
  then show "goroutines w1 ! k = goroutines w ! k"
    by (blast intro: step_other_goroutine)
qed

theorem dial_placement_witness:
  "(0::nat) < length (goroutines \<lparr>goroutines = [Inbound_Accept ''/tmp/in.sock'' ''node1'' ''svc'' None], effects = []\<rparr>) \<and>
   goroutines \<lparr>goroutines = [Inbound_Accept ''/tmp/in.sock'' ''node1'' ''svc'' None], effects = []\<rparr> ! 0 =
     Inbound_Accept ''/tmp/in.sock'' ''node1'' ''svc'' None \<and>
   step (Accept_returns 0 (Inr 7))
       \<lparr>goroutines = [Inbound_Accept ''/tmp/in.sock'' ''node1'' ''svc'' None], effects = []\<rparr> =
     Some \<lparr>goroutines = [Inbound_Accept ''/tmp/in.sock'' ''node1'' ''svc'' None, Inbound_Dial 7],
           effects = [Netceptor_Dial_call ''node1'' ''svc'' None]\<rparr> \<and>
   (\<exists>w'. step (Accept_returns 0 (Inr 7))
       \<lparr>goroutines = [Inbound_Accept ''/tmp/in.sock'' ''node1'' ''svc'' None], effects = []\<rparr> = Some w' \<and>
      (\<forall>r. step (Accept_returns 0 r) w' \<noteq> None)) \<and>
   (0::nat) < length (goroutines \<lparr>goroutines = [Outbound_Accept ''/tmp/out.sock''], effects = []\<rparr>) \<and>
   goroutines \<lparr>goroutines = [Outbound_Accept ''/tmp/out.sock''], effects = []\<rparr> ! 0 =
     Outbound_Accept ''/tmp/out.sock'' \<and>
   step (Accept_returns 0 (Inr 7)) \<lparr>goroutines = [Outbound_Accept ''/tmp/out.sock''], effects = []\<rparr> =
     Some \<lparr>goroutines = [Outbound_Dial ''/tmp/out.sock'' 7],
           effects = [net_Dial_call ''unix'' ''/tmp/out.sock'']\<rparr> \<and>
   (\<exists>w'. step (Accept_returns 0 (Inr 7))
       \<lparr>goroutines = [Outbound_Accept ''/tmp/out.sock''], effects = []\<rparr> = Some w' \<and>
      (\<forall>r. step (Accept_returns 0 r) w' = None)) \<and>
   step (Accept_returns 0 (Inr 8))
       \<lparr>goroutines = [Inbound_Accept ''/tmp/in.sock'' ''node1'' ''svc'' None, Inbound_Dial 7],
        effects = []\<rparr> =
     Some \<lparr>goroutines = [Inbound_Accept ''/tmp/in.sock'' ''node1'' ''svc'' None, Inbound_Dial 7,
             Inbound_Dial 8],
           effects = [Netceptor_Dial_call ''node1'' ''svc'' None]\<rparr> \<and>
   (1::nat) < length (goroutines
       \<lparr>goroutines = [Inbound_Accept ''/tmp/in.sock'' ''node1'' ''svc'' None, Inbound_Dial 7],
        effects = []\<rparr>) \<and>
   (1::nat) \<noteq> goroutine_of (Accept_returns 0 (Inr 8)) \<and>
   goroutines \<lparr>goroutines = [Inbound_Accept ''/tmp/in.sock'' ''node1'' ''svc'' None, Inbound_Dial 7,
             Inbound_Dial 8],
           effects = [Netceptor_Dial_call ''node1'' ''svc'' None]\<rparr> ! 1 =
     goroutines \<lparr>goroutines = [Inbound_Accept ''/tmp/in.sock'' ''node1'' ''svc'' None, Inbound_Dial 7],
        effects = []\<rparr> ! 1"
proof -
  let ?pending = "\<lparr>goroutines = [Inbound_Accept ''/tmp/in.sock'' ''node1'' ''svc'' None, Inbound_Dial 7],
      effects = []\<rparr>"
  let ?both = "\<lparr>goroutines = [Inbound_Accept ''/tmp/in.sock'' ''node1'' ''svc'' None, Inbound_Dial 7,
        Inbound_Dial 8],
      effects = [Netceptor_Dial_call ''node1'' ''svc'' None]\<rparr>"
  have l3: "0 < length (goroutines ?pending)"
    by simp
  have e3: "step (Accept_returns 0 (Inr 8)) ?pending = Some ?both"
    by (simp add: step_defs go_def does_def)
  have k3: "1 < length (goroutines ?pending)" "(1::nat) \<noteq> goroutine_of (Accept_returns 0 (Inr 8))"
    by simp_all
  have "\<forall>ev w1 k. step ev ?pending = Some w1 \<and> k < length (goroutines ?pending) \<and>
      k \<noteq> goroutine_of ev \<longrightarrow> goroutines w1 ! k = goroutines ?pending ! k"
    using dial_placement [OF l3] by blast
  with e3 k3 have i3: "goroutines ?both ! 1 = goroutines ?pending ! 1"
    by blast
  let ?inb = "\<lparr>goroutines = [Inbound_Accept ''/tmp/in.sock'' ''node1'' ''svc'' None],
      effects = []\<rparr>"
  let ?outb = "\<lparr>goroutines = [Outbound_Accept ''/tmp/out.sock''], effects = []\<rparr>"
  have l1: "0 < length (goroutines ?inb)" and l2: "0 < length (goroutines ?outb)"
    by simp_all
  have a1: "goroutines ?inb ! 0 = Inbound_Accept ''/tmp/in.sock'' ''node1'' ''svc'' None"
    and a2: "goroutines ?outb ! 0 = Outbound_Accept ''/tmp/out.sock''"
    by simp_all
  have e1: "step (Accept_returns 0 (Inr 7)) ?inb =
      Some \<lparr>goroutines = [Inbound_Accept ''/tmp/in.sock'' ''node1'' ''svc'' None, Inbound_Dial 7],
           effects = [Netceptor_Dial_call ''node1'' ''svc'' None]\<rparr>"
    and e2: "step (Accept_returns 0 (Inr 7)) ?outb =
      Some \<lparr>goroutines = [Outbound_Dial ''/tmp/out.sock'' 7],
           effects = [net_Dial_call ''unix'' ''/tmp/out.sock'']\<rparr>"
    by (simp_all add: step_defs go_def does_def becomes_def)
  from dial_placement [OF l1, where filename = "''/tmp/in.sock''" and node = "''node1''"
        and rservice = "''svc''" and tlscfg = None and uc = 7 and qc = 8]
    dial_placement [OF l2, where filename = "''/tmp/out.sock''" and qc = 7 and uc = 8]
    l1 l2 a1 a2 e1 e2
  have "(\<exists>w'. step (Accept_returns 0 (Inr 7)) ?inb = Some w' \<and>
      (\<forall>r. step (Accept_returns 0 r) w' \<noteq> None)) \<and>
    (\<exists>w'. step (Accept_returns 0 (Inr 7)) ?outb = Some w' \<and>
      (\<forall>r. step (Accept_returns 0 r) w' = None))"
    by auto
  with l1 l2 a1 a2 e1 e2 e3 k3 i3 show ?thesis
    by simp
qed

text \<open>
  C3 as stated fails for the outbound service: after it accepted connection 7 there is still
  one goroutine, the loop, now in \<open>net.Dial\<close>; while that dial has not returned, no second
  \<open>Accept\<close> can return.
\<close>

theorem dial_placement_counterexample:
  "run [Accept_returns 0 (Inr 7)]
     (snd (UnixProxyServiceOutbound env_ok ''svc'' None ''/tmp/out.sock'' world0)) =
   Some \<lparr>goroutines = [Outbound_Dial ''/tmp/out.sock'' 7],
         effects = [ListenAndAdvertise_call ''svc'' None
                      [(''type'', ''Unix Proxy''), (''filename'', ''/tmp/out.sock'')],
                    net_Dial_call ''unix'' ''/tmp/out.sock'']\<rparr> \<and>
   run [Accept_returns 0 (Inr 7), Accept_returns 0 (Inr 8)]
     (snd (UnixProxyServiceOutbound env_ok ''svc'' None ''/tmp/out.sock'' world0)) = None"
  by (simp add: UnixProxyServiceOutbound_def env_ok_def world0_def step_defs go_def does_def
      becomes_def)

subsection \<open>Set-up and the end of the accept loop\<close>

text \<open>
  C4. If \<open>UnixSocketListen\<close> fails, \<open>UnixProxyServiceInbound\<close> returns a non-nil error and
  starts no goroutine, and the call that failed is its only effect; if \<open>ListenAndAdvertise\<close>
  fails, the same holds of \<open>UnixProxyServiceOutbound\<close>. Otherwise each returns nil and has
  started its accept loop.
\<close>

theorem setup_failure_is_synchronous:
  "(UnixSocketListen s filename permissions \<noteq> None \<longrightarrow>
      fst (UnixProxyServiceInbound s filename permissions node rservice tlscfg w) \<noteq> None \<and>
      goroutines (snd (UnixProxyServiceInbound s filename permissions node rservice tlscfg w)) =
        goroutines w \<and>
      effects (snd (UnixProxyServiceInbound s filename permissions node rservice tlscfg w)) =
        effects w @ [UnixSocketListen_call filename permissions]) \<and>
   (UnixSocketListen s filename permissions = None \<longrightarrow>
      fst (UnixProxyServiceInbound s filename permissions node rservice tlscfg w) = None \<and>
      goroutines (snd (UnixProxyServiceInbound s filename permissions node rservice tlscfg w)) =
        goroutines w @ [Inbound_Accept filename node rservice tlscfg]) \<and>
   (ListenAndAdvertise s service tlscfg [(''type'', ''Unix Proxy''), (''filename'', filename)] \<noteq> None \<longrightarrow>
      fst (UnixProxyServiceOutbound s service tlscfg filename w) \<noteq> None \<and>
      goroutines (snd (UnixProxyServiceOutbound s service tlscfg filename w)) = goroutines w \<and>
      effects (snd (UnixProxyServiceOutbound s service tlscfg filename w)) =
        effects w @ [ListenAndAdvertise_call service tlscfg
          [(''type'', ''Unix Proxy''), (''filename'', filename)]]) \<and>
   (ListenAndAdvertise s service tlscfg [(''type'', ''Unix Proxy''), (''filename'', filename)] = None \<longrightarrow>
      fst (UnixProxyServiceOutbound s service tlscfg filename w) = None \<and>
      goroutines (snd (UnixProxyServiceOutbound s service tlscfg filename w)) =
        goroutines w @ [Outbound_Accept filename])"
  by (auto simp: UnixProxyServiceInbound_def UnixProxyServiceOutbound_def Let_def
      split: option.splits)

theorem setup_failure_is_synchronous_witness:
  "UnixSocketListen env_nolisten ''/tmp/in.sock'' 384 \<noteq> None \<and>
   fst (UnixProxyServiceInbound env_nolisten ''/tmp/in.sock'' 384 ''node1'' ''svc'' None world0) =
     Some (Err ''error opening Unix socket: permission denied'') \<and>
   goroutines (snd (UnixProxyServiceInbound env_nolisten ''/tmp/in.sock'' 384 ''node1'' ''svc'' None world0)) = [] \<and>
   ListenAndAdvertise env_nolisten ''svc'' None [(''type'', ''Unix Proxy''), (''filename'', ''/tmp/in.sock'')] \<noteq> None \<and>
   fst (UnixProxyServiceOutbound env_nolisten ''svc'' None ''/tmp/in.sock'' world0) =
     Some (Err ''error listening on Receptor network: service already in use'') \<and>
   goroutines (snd (UnixProxyServiceOutbound env_nolisten ''svc'' None ''/tmp/in.sock'' world0)) = [] \<and>
   UnixSocketListen env_ok ''/tmp/in.sock'' 384 = None \<and>
   fst (UnixProxyServiceInbound env_ok ''/tmp/in.sock'' 384 ''node1'' ''svc'' None world0) = None \<and>
   ListenAndAdvertise env_ok ''svc'' None [(''type'', ''Unix Proxy''), (''filename'', ''/tmp/in.sock'')] = None \<and>
   fst (UnixProxyServiceOutbound env_ok ''svc'' None ''/tmp/in.sock'' world0) = None"
  using setup_failure_is_synchronous [of env_nolisten "''/tmp/in.sock''" 384 "''node1''" "''svc''" None world0 "''svc''"]
    setup_failure_is_synchronous [of env_ok "''/tmp/in.sock''" 384 "''node1''" "''svc''" None world0 "''svc''"]
  by (simp add: UnixProxyServiceInbound_def UnixProxyServiceOutbound_def env_nolisten_def
      env_ok_def world0_def fmt_Errorf_s_def does_def go_def)

text \<open>
  C5. After a successful \<open>UnixProxyServiceInbound\<close> in a fresh process, along every run:
  the accept loop (goroutine 0) has returned exactly when some \<open>Accept\<close> of it returned an
  error. Until then it is in \<open>Accept\<close>, \<open>lock.Unlock\<close> has not been called, and an \<open>Accept\<close>
  error makes it log, unlock and return. From then on \<open>lock.Unlock\<close> has been called exactly
  once and no \<open>Accept\<close> of that loop returns again. The run is arbitrary, so this also holds
  of every continuation: the loop stays returned.
\<close>

theorem Inbound_accept_error_is_terminal:
  assumes "UnixProxyServiceInbound s filename permissions node rservice tlscfg world0 = (None, w0)"
    and "run evs w0 = Some w"
  shows "(goroutines w ! 0 = Returned \<longleftrightarrow> (\<exists>err. Accept_returns 0 (Inl err) \<in> set evs)) \<and>
    (goroutines w ! 0 \<noteq> Returned \<longrightarrow>
       goroutines w ! 0 = Inbound_Accept filename node rservice tlscfg \<and>
       count_list (effects w) (lock_Unlock filename) = 0 \<and>
       step (Accept_returns 0 (Inl err)) w =
         Some (becomes 0 Returned
           (does [logger_Error ''Error accepting Unix socket connection: %s'' err,
                  lock_Unlock filename] w))) \<and>
    (goroutines w ! 0 = Returned \<longrightarrow>
       count_list (effects w) (lock_Unlock filename) = 1 \<and>
       (\<forall>r. step (Accept_returns 0 r) w = None))"
proof -
  have start: "inbound_inv filename node rservice tlscfg w0"
    using assms(1) by (rule inbound_inv_start)
  have w0: "goroutines w0 ! 0 \<noteq> Returned"
    using assms(1)
    by (auto simp: UnixProxyServiceInbound_def world0_def Let_def go_def does_def
        split: option.splits)
  from inbound_inv_run [OF start assms(2)] w0
  have inv: "inbound_inv filename node rservice tlscfg w"
    and iff: "goroutines w ! 0 = Returned \<longleftrightarrow> (\<exists>err. Accept_returns 0 (Inl err) \<in> set evs)"
    by simp_all
  from inv have len: "0 < length (goroutines w)"
    by (simp add: inbound_inv_iff)
  from inv have cases: "goroutines w ! 0 = Inbound_Accept filename node rservice tlscfg \<and>
        count_list (effects w) (lock_Unlock filename) = 0 \<or>
      goroutines w ! 0 = Returned \<and> count_list (effects w) (lock_Unlock filename) = 1"
    by (simp add: inbound_inv_iff)
  show ?thesis
    using iff cases step_Accept_Inbound_error [OF len, of filename node rservice tlscfg err]
      step_Accept_Returned [of w 0]
    by auto
qed

theorem Inbound_accept_error_is_terminal_witness:
  "UnixProxyServiceInbound env_ok ''/tmp/in.sock'' 384 ''node1'' ''svc'' None world0 =
     (None, \<lparr>goroutines = [Inbound_Accept ''/tmp/in.sock'' ''node1'' ''svc'' None],
             effects = [UnixSocketListen_call ''/tmp/in.sock'' 384]\<rparr>) \<and>
   run [Accept_returns 0 (Inr 7), Dial_returns 1 (Inr 8), Accept_returns 0 (Inl (Err ''closed''))]
     \<lparr>goroutines = [Inbound_Accept ''/tmp/in.sock'' ''node1'' ''svc'' None],
      effects = [UnixSocketListen_call ''/tmp/in.sock'' 384]\<rparr> =
   Some \<lparr>goroutines = [Returned, BridgeConns 7 ''unix socket service'' 8 ''receptor connection''],
         effects = [UnixSocketListen_call ''/tmp/in.sock'' 384,
                    Netceptor_Dial_call ''node1'' ''svc'' None,
                    logger_Error ''Error accepting Unix socket connection: %s'' (Err ''closed''),
                    lock_Unlock ''/tmp/in.sock'']\<rparr> \<and>
   count_list (effects \<lparr>goroutines = [Returned, BridgeConns 7 ''unix socket service'' 8 ''receptor connection''],
         effects = [UnixSocketListen_call ''/tmp/in.sock'' 384,
                    Netceptor_Dial_call ''node1'' ''svc'' None,
                    logger_Error ''Error accepting Unix socket connection: %s'' (Err ''closed''),
                    lock_Unlock ''/tmp/in.sock'']\<rparr>) (lock_Unlock ''/tmp/in.sock'') = 1 \<and>
   (\<forall>r. step (Accept_returns 0 r) \<lparr>goroutines = [Returned, BridgeConns 7 ''unix socket service'' 8 ''receptor connection''],
         effects = [UnixSocketListen_call ''/tmp/in.sock'' 384,
                    Netceptor_Dial_call ''node1'' ''svc'' None,
                    logger_Error ''Error accepting Unix socket connection: %s'' (Err ''closed''),
                    lock_Unlock ''/tmp/in.sock'']\<rparr> = None) \<and>
   run [Accept_returns 0 (Inr 7)]
     \<lparr>goroutines = [Inbound_Accept ''/tmp/in.sock'' ''node1'' ''svc'' None],
      effects = [UnixSocketListen_call ''/tmp/in.sock'' 384]\<rparr> =
   Some \<lparr>goroutines = [Inbound_Accept ''/tmp/in.sock'' ''node1'' ''svc'' None, Inbound_Dial 7],
         effects = [UnixSocketListen_call ''/tmp/in.sock'' 384,
                    Netceptor_Dial_call ''node1'' ''svc'' None]\<rparr> \<and>
   goroutines \<lparr>goroutines = [Inbound_Accept ''/tmp/in.sock'' ''node1'' ''svc'' None, Inbound_Dial 7],
         effects = [UnixSocketListen_call ''/tmp/in.sock'' 384,
                    Netceptor_Dial_call ''node1'' ''svc'' None]\<rparr> ! 0 \<noteq> Returned \<and>
   count_list (effects \<lparr>goroutines = [Inbound_Accept ''/tmp/in.sock'' ''node1'' ''svc'' None, Inbound_Dial 7],
         effects = [UnixSocketListen_call ''/tmp/in.sock'' 384,
                    Netceptor_Dial_call ''node1'' ''svc'' None]\<rparr>) (lock_Unlock ''/tmp/in.sock'') = 0"
proof -
  let ?mid = "\<lparr>goroutines = [Inbound_Accept ''/tmp/in.sock'' ''node1'' ''svc'' None, Inbound_Dial 7],
         effects = [UnixSocketListen_call ''/tmp/in.sock'' 384,
                    Netceptor_Dial_call ''node1'' ''svc'' None]\<rparr>"
  let ?start = "\<lparr>goroutines = [Inbound_Accept ''/tmp/in.sock'' ''node1'' ''svc'' None],
             effects = [UnixSocketListen_call ''/tmp/in.sock'' 384]\<rparr>"
  let ?evs = "[Accept_returns 0 (Inr 7), Dial_returns 1 (Inr 8),
      Accept_returns 0 (Inl (Err ''closed''))]"
  let ?final = "\<lparr>goroutines = [Returned, BridgeConns 7 ''unix socket service'' 8 ''receptor connection''],
         effects = [UnixSocketListen_call ''/tmp/in.sock'' 384,
                    Netceptor_Dial_call ''node1'' ''svc'' None,
                    logger_Error ''Error accepting Unix socket connection: %s'' (Err ''closed''),
                    lock_Unlock ''/tmp/in.sock'']\<rparr>"
  have h1: "UnixProxyServiceInbound env_ok ''/tmp/in.sock'' 384 ''node1'' ''svc'' None world0 =
      (None, ?start)"
    by (simp add: UnixProxyServiceInbound_def env_ok_def world0_def go_def does_def)
  have h2: "run ?evs ?start = Some ?final"
    by (simp add: step_defs go_def does_def becomes_def)
  have h3: "run [Accept_returns 0 (Inr 7)] ?start = Some ?mid"
    by (simp add: step_defs go_def does_def)
  have h4: "goroutines ?mid ! 0 \<noteq> Returned"
    by simp
  from Inbound_accept_error_is_terminal [OF h1 h2] Inbound_accept_error_is_terminal [OF h1 h3]
    h1 h2 h3 h4
  show ?thesis
    by simp
qed

subsection \<open>Metadata, TLS and permissions\<close>

text \<open>
  C6, as amended. \<open>UnixProxyServiceOutbound\<close> advertises its service with metadata exactly
  equal to the map \<open>{type: "Unix Proxy", filename: <the configured local socket path>}\<close>.
\<close>

theorem Outbound_advertised_metadata:
  "effects (snd (UnixProxyServiceOutbound s service tlscfg filename w)) =
     effects w @ [ListenAndAdvertise_call service tlscfg
       [(''type'', ''Unix Proxy''), (''filename'', filename)]] \<and>
   map_of [(''type'', ''Unix Proxy''), (''filename'', filename)] =
     [''type'' \<mapsto> ''Unix Proxy'', ''filename'' \<mapsto> filename]"
  by (auto simp: UnixProxyServiceOutbound_def Let_def split: option.splits)

text \<open>
  C6 as stated fails: the advertised map has no key \<open>kind\<close>, so it is not
  \<open>{kind: "unix-proxy", path: "/tmp/out.sock"}\<close>.
\<close>

theorem Outbound_advertised_metadata_counterexample:
  "effects (snd (UnixProxyServiceOutbound env_ok ''svc'' None ''/tmp/out.sock'' world0)) =
     [ListenAndAdvertise_call ''svc'' None
       [(''type'', ''Unix Proxy''), (''filename'', ''/tmp/out.sock'')]] \<and>
   map_of [(''type'', ''Unix Proxy''), (''filename'', ''/tmp/out.sock'')] \<noteq>
     [''kind'' \<mapsto> ''unix-proxy'', ''path'' \<mapsto> ''/tmp/out.sock'']"
proof -
  have "map_of [(''type'', ''Unix Proxy''), (''filename'', ''/tmp/out.sock'')] ''kind'' = None"
    by simp
  moreover have "[''kind'' \<mapsto> ''unix-proxy'', ''path'' \<mapsto> ''/tmp/out.sock''] ''kind'' =
      Some ''unix-proxy''"
    by simp
  ultimately have "map_of [(''type'', ''Unix Proxy''), (''filename'', ''/tmp/out.sock'')] \<noteq>
     [''kind'' \<mapsto> ''unix-proxy'', ''path'' \<mapsto> ''/tmp/out.sock'']"
    by (metis option.distinct(1))
  then show ?thesis
    by (simp add: UnixProxyServiceOutbound_def env_ok_def world0_def does_def go_def)
qed

text \<open>
  C7. When the TLS configuration fails to resolve, \<open>Run\<close> of the two command-line objects
  returns that error, having logged its debug line only, and \<open>setup\<close> of the two exported
  objects returns an error that wraps it (\<open>%w\<close>, so that \<open>errors.Is\<close> finds it) and leaves the
  process as it was: no goroutine is started and neither \<open>UnixSocketListen\<close> nor
  \<open>ListenAndAdvertise\<close> is called, as the first act of \<open>UnixProxyServiceInbound\<close> and of
  \<open>UnixProxyServiceOutbound\<close> would be.
\<close>

theorem tls_failure_aborts_setup:
  "(GetClientTLSConfig s (unixProxyInboundCfg.TLS cfg) (unixProxyInboundCfg.RemoteNode cfg)
        ''receptor'' = Inl err \<longrightarrow>
      fst (unixProxyInboundCfg_Run s cfg w) = Some err \<and>
      goroutines (snd (unixProxyInboundCfg_Run s cfg w)) = goroutines w \<and>
      effects (snd (unixProxyInboundCfg_Run s cfg w)) =
        effects w @ [logger_Debug ''Running Unix socket inbound proxy service %v\<newline>'']) \<and>
   (GetServerTLSConfig s (unixProxyOutboundCfg.TLS ocfg) = Inl err \<longrightarrow>
      fst (unixProxyOutboundCfg_Run s ocfg w) = Some err \<and>
      goroutines (snd (unixProxyOutboundCfg_Run s ocfg w)) = goroutines w \<and>
      effects (snd (unixProxyOutboundCfg_Run s ocfg w)) =
        effects w @ [logger_Debug ''Running Unix socket inbound proxy service %s\<newline>'']) \<and>
   (ClientConf_TLSConfig s (UnixInProxy.TLS p) = Inl err \<longrightarrow>
      UnixInProxy_setup s p w =
        (Some (Wrap (''could not create tls config for unix inbound proxy '' @
           UnixInProxy.File p @ '': '' @ error_Error err) err), w) \<and>
      errors_Is (the (fst (UnixInProxy_setup s p w))) err) \<and>
   (ServerConf_TLSConfig s (UnixOutProxy.TLS q) = Inl err \<longrightarrow>
      UnixOutProxy_setup s q w =
        (Some (Wrap (''could not create tls config for unix outbound proxy '' @
           UnixOutProxy.File q @ '': '' @ error_Error err) err), w) \<and>
      errors_Is (the (fst (UnixOutProxy_setup s q w))) err)"
  by (simp add: unixProxyInboundCfg_Run_def unixProxyOutboundCfg_Run_def UnixInProxy_setup_def
      UnixOutProxy_setup_def fmt_Errorf_s_w_def errors_Is_refl Let_def)

theorem tls_failure_aborts_setup_witness:
  "GetClientTLSConfig env_notls (unixProxyInboundCfg.TLS example_unixProxyInboundCfg)
     (unixProxyInboundCfg.RemoteNode example_unixProxyInboundCfg) ''receptor'' =
     Inl (Err ''unknown TLS config'') \<and>
   unixProxyInboundCfg_Run env_notls example_unixProxyInboundCfg world0 =
     (Some (Err ''unknown TLS config''),
      \<lparr>goroutines = [],
       effects = [logger_Debug ''Running Unix socket inbound proxy service %v\<newline>'']\<rparr>) \<and>
   GetServerTLSConfig env_notls (unixProxyOutboundCfg.TLS example_unixProxyOutboundCfg) =
     Inl (Err ''unknown TLS config'') \<and>
   unixProxyOutboundCfg_Run env_notls example_unixProxyOutboundCfg world0 =
     (Some (Err ''unknown TLS config''),
      \<lparr>goroutines = [],
       effects = [logger_Debug ''Running Unix socket inbound proxy service %s\<newline>'']\<rparr>) \<and>
   ClientConf_TLSConfig env_notls (UnixInProxy.TLS example_UnixInProxy) =
     Inl (Err ''unknown TLS config'') \<and>
   UnixInProxy_setup env_notls example_UnixInProxy world0 =
     (Some (Wrap ''could not create tls config for unix inbound proxy /tmp/in.sock: unknown TLS config''
        (Err ''unknown TLS config'')), world0) \<and>
   ServerConf_TLSConfig env_notls (UnixOutProxy.TLS example_UnixOutProxy) =
     Inl (Err ''unknown TLS config'') \<and>
   UnixOutProxy_setup env_notls example_UnixOutProxy world0 =
     (Some (Wrap ''could not create tls config for unix outbound proxy /tmp/out.sock: unknown TLS config''
        (Err ''unknown TLS config'')), world0)"
  using tls_failure_aborts_setup [of env_notls example_unixProxyInboundCfg "Err ''unknown TLS config''"
      world0 example_unixProxyOutboundCfg example_UnixInProxy example_UnixOutProxy]
  by (simp add: env_notls_def env_ok_def example_defs world0_def does_def prod_eq_iff)

text \<open>
  C8. An inbound proxy whose permissions are left unspecified calls \<open>UnixSocketListen\<close> for
  its file with the mode \<open>0o600\<close>, owner read (\<open>0o400\<close>, 256) and owner write (\<open>0o200\<close>, 128)
  only, once its TLS configuration has resolved: the exported object \<open>UnixInProxy\<close> with
  the nil \<open>Permissions\<close>, by the default of \<open>setup\<close>, and the command-line object built from
  arguments without permissions, by the default of its tag.
\<close>

theorem default_permissions:
  "(UnixInProxy.Permissions p = None \<and> ClientConf_TLSConfig nc (UnixInProxy.TLS p) = Inr t \<longrightarrow>
      effects (snd (UnixInProxy_setup nc p w)) =
        effects w @ [UnixSocketListen_call (UnixInProxy.File p) (os_FileMode (octal [6, 0, 0]))]) \<and>
   (unixProxyInboundArgs.Permissions a = None \<and>
    GetClientTLSConfig nc (unixProxyInboundArgs.TLS a) (unixProxyInboundArgs.RemoteNode a)
        ''receptor'' = Inr t \<longrightarrow>
      effects (snd (unixProxyInboundCfg_Run nc (cmdline_defaults a) w)) =
        effects w @ [logger_Debug ''Running Unix socket inbound proxy service %v\<newline>'',
          UnixSocketListen_call (unixProxyInboundArgs.Filename a)
            (os_FileMode (octal [6, 0, 0]))]) \<and>
   os_FileMode (octal [6, 0, 0]) = 256 + 128"
proof -
  have tag: "octal (map octal_digit Permissions_default) = octal [6, 0, 0]"
    by (simp add: Permissions_default_def octal_digit_def octal_def)
  have mode: "os_FileMode (octal [6, 0, 0]) = 384"
    by (simp add: os_FileMode_def octal_def)
  show ?thesis
    by (auto simp: UnixInProxy_setup_def unixProxyInboundCfg_Run_def UnixProxyServiceInbound_def
        cmdline_defaults_def tag mode Let_def split: option.splits)
qed

theorem default_permissions_witness:
  "UnixInProxy.Permissions example_UnixInProxy = None \<and>
   ClientConf_TLSConfig env_ok (UnixInProxy.TLS example_UnixInProxy) = Inr (Some (TLSConfig ''client'')) \<and>
   UnixInProxy_setup env_ok example_UnixInProxy world0 =
     (None, \<lparr>goroutines = [Inbound_Accept ''/tmp/in.sock'' ''node1'' ''svc'' (Some (TLSConfig ''client''))],
             effects = [UnixSocketListen_call ''/tmp/in.sock'' 384]\<rparr>) \<and>
   unixProxyInboundArgs.Permissions example_unixProxyInboundArgs = None \<and>
   GetClientTLSConfig env_ok (unixProxyInboundArgs.TLS example_unixProxyInboundArgs)
     (unixProxyInboundArgs.RemoteNode example_unixProxyInboundArgs) ''receptor'' =
     Inr (Some (TLSConfig ''client'')) \<and>
   unixProxyInboundCfg.Permissions (cmdline_defaults example_unixProxyInboundArgs) = 384 \<and>
   effects (snd (unixProxyInboundCfg_Run env_ok (cmdline_defaults example_unixProxyInboundArgs)
       world0)) =
     [logger_Debug ''Running Unix socket inbound proxy service %v\<newline>'',
      UnixSocketListen_call ''/tmp/in.sock'' 384]"
  using default_permissions [of example_UnixInProxy env_ok "Some (TLSConfig ''client'')" world0
      example_unixProxyInboundArgs]
  by (simp add: env_ok_def tls_of_name_def example_defs world0_def does_def go_def
      UnixInProxy_setup_def unixProxyInboundCfg_Run_def UnixProxyServiceInbound_def
      cmdline_defaults_def Permissions_default_def octal_digit_def os_FileMode_def octal_def)

end
